theory Spec2Isabelle
  imports Complex_Main
begin

section \<open>JavaScript values\<close>

text \<open>
  The front end is JavaScript. A JavaScript number is modelled by its mathematical value:
  \<open>Fin r\<close> is the finite number of value \<open>r\<close>, and \<open>NaN\<close>, \<open>PosInf\<close> and \<open>NegInf\<close>
  are the three special values. The sign of zero is not part of the model. The arithmetic
  of the nearest-point lookup rounds each result to a double (\<open>to_double\<close> below); the
  reading of decimal text and the depth profile compute with the exact values.

  A JavaScript string is a \<open>string\<close>; each \<open>char\<close> stands for one code unit below 256.

  The values that reach the functions below come out of a JSON document or out of a form
  field; \<open>jsval\<close> has the primitive ones.
\<close>

datatype jsnum = NaN | PosInf | NegInf | Fin real

datatype jsval = JUndefined | JNull | JBool bool | JNum jsnum | JStr string

text \<open>\<open>isNaN\<close> and \<open>isFinite\<close> on a number.\<close>

fun isNaN :: "jsnum \<Rightarrow> bool" where
  "isNaN NaN = True"
| "isNaN _ = False"

fun isFinite :: "jsnum \<Rightarrow> bool" where
  "isFinite (Fin _) = True"
| "isFinite _ = False"

text \<open>\<open>Math.abs\<close>.\<close>

fun js_abs :: "jsnum \<Rightarrow> jsnum" where
  "js_abs NaN = NaN"
| "js_abs PosInf = PosInf"
| "js_abs NegInf = PosInf"
| "js_abs (Fin r) = Fin \<bar>r\<bar>"

text \<open>The relational operators on numbers: every comparison with \<open>NaN\<close> is false.\<close>

fun js_lt :: "jsnum \<Rightarrow> jsnum \<Rightarrow> bool" where
  "js_lt NaN _ = False"
| "js_lt _ NaN = False"
| "js_lt PosInf _ = False"
| "js_lt _ NegInf = False"
| "js_lt NegInf _ = True"
| "js_lt _ PosInf = True"
| "js_lt (Fin a) (Fin b) = (a < b)"

definition js_gt :: "jsnum \<Rightarrow> jsnum \<Rightarrow> bool" where
  "js_gt a b = js_lt b a"

fun js_le :: "jsnum \<Rightarrow> jsnum \<Rightarrow> bool" where
  "js_le NaN _ = False"
| "js_le _ NaN = False"
| "js_le NegInf _ = True"
| "js_le _ PosInf = True"
| "js_le PosInf _ = False"
| "js_le _ NegInf = False"
| "js_le (Fin a) (Fin b) = (a \<le> b)"

definition js_ge :: "jsnum \<Rightarrow> jsnum \<Rightarrow> bool" where
  "js_ge a b = js_le b a"

text \<open>\<open>ToBoolean\<close>: what \<open>v ? a : b\<close>, \<open>!v\<close> and \<open>v || d\<close> test.\<close>

fun truthy :: "jsval \<Rightarrow> bool" where
  "truthy JUndefined = False"
| "truthy JNull = False"
| "truthy (JBool b) = b"
| "truthy (JNum NaN) = False"
| "truthy (JNum (Fin r)) = (r \<noteq> 0)"
| "truthy (JNum _) = True"
| "truthy (JStr s) = (s \<noteq> [])"

subsection \<open>Strings to numbers: \<open>parseFloat\<close>\<close>

text \<open>
  White space as \<open>\s\<close>, \<open>trim\<close> and \<open>parseFloat\<close> see it, among the code units below 256:
  tab, line feed, vertical tab, form feed, carriage return, space and no-break space.
\<close>

definition is_ws :: "char \<Rightarrow> bool" where
  "is_ws c \<longleftrightarrow> c \<in> set [CHR 0x09, CHR 0x0A, CHR 0x0B, CHR 0x0C, CHR 0x0D, CHR 0x20, CHR 0xA0]"

definition is_digit :: "char \<Rightarrow> bool" where
  "is_digit c \<longleftrightarrow> c \<in> set ''0123456789''"

definition digit_val :: "char \<Rightarrow> nat" where
  "digit_val c = of_char c - 48"

definition digits_val :: "string \<Rightarrow> nat" where
  "digits_val ds = foldl (\<lambda>n c. 10 * n + digit_val c) 0 ds"

text \<open>An optional sign in front of a literal.\<close>

definition str_sign :: "string \<Rightarrow> int \<times> string" where
  "str_sign s =
     (case s of
        [] \<Rightarrow> (1, [])
      | c # r \<Rightarrow>
          if c = CHR ''-'' then (- 1, r)
          else if c = CHR ''+'' then (1, r)
          else (1, s))"

text \<open>
  The exponent part \<open>e\<close> or \<open>E\<close>, an optional sign, at least one digit. Where the
  digits are missing the literal ends before the \<open>e\<close>.
\<close>

definition exponent_part :: "string \<Rightarrow> int" where
  "exponent_part s =
     (case s of
        [] \<Rightarrow> 0
      | c # r \<Rightarrow>
          if c = CHR ''e'' \<or> c = CHR ''E'' then
            (let (sg, t) = str_sign r; ds = takeWhile is_digit t
             in if ds = [] then 0 else sg * int (digits_val ds))
          else 0)"

text \<open>
  \<open>parseFloat\<close> on a string: leading white space is skipped, then the longest prefix that
  is a \<open>StrDecimalLiteral\<close> is read (a sign, then \<open>Infinity\<close> or digits with an optional
  fraction and exponent; a lone \<open>.\<close> is not a literal). No such prefix gives \<open>NaN\<close>.
\<close>

definition parseFloat_str :: "string \<Rightarrow> jsnum" where
  "parseFloat_str s =
     (let (sg, u) = str_sign (dropWhile is_ws s) in
      if take 8 u = ''Infinity'' then (if sg < 0 then NegInf else PosInf)
      else
        let ip = takeWhile is_digit u;
            r1 = dropWhile is_digit u;
            has_dot = (case r1 of [] \<Rightarrow> False | c # _ \<Rightarrow> c = CHR ''.'');
            fp = (if has_dot then takeWhile is_digit (tl r1) else []);
            r2 = (if has_dot then dropWhile is_digit (tl r1) else r1)
        in if ip = [] \<and> fp = [] then NaN
           else Fin (real_of_int sg
                      * (real (digits_val ip) + real (digits_val fp) / 10 ^ length fp)
                      * 10 powi exponent_part r2))"

text \<open>
  \<open>ToString\<close> of the values that are not numbers. A number is left out: \<open>parseFloat\<close>
  of a number prints it and reads the same number back, which is how \<open>parseFloat\<close> below
  treats it.
\<close>

fun to_string :: "jsval \<Rightarrow> string" where
  "to_string JUndefined = ''undefined''"
| "to_string JNull = ''null''"
| "to_string (JBool b) = (if b then ''true'' else ''false'')"
| "to_string (JStr s) = s"
| "to_string (JNum _) = []"

fun parseFloat :: "jsval \<Rightarrow> jsnum" where
  "parseFloat (JNum n) = n"
| "parseFloat v = parseFloat_str (to_string v)"

section \<open>The filter panel: \<open>FloatFilters.handleSubmit\<close> and the query of \<open>fetchArgoFloats\<close>\<close>

text \<open>
  The panel's state has seven fields, each the text of a form input; \<open>None\<close> is a field
  that is \<open>undefined\<close>.
\<close>

record filters =
  latMin :: "string option"
  latMax :: "string option"
  lonMin :: "string option"
  lonMax :: "string option"
  depthMax :: "string option"
  startDate :: "string option"
  endDate :: "string option"

text \<open>\<open>filters.x || undefined\<close>: the text when it is not empty.\<close>

definition or_undefined :: "string option \<Rightarrow> jsval" where
  "or_undefined x = (case x of None \<Rightarrow> JUndefined | Some s \<Rightarrow> if s \<noteq> [] then JStr s else JUndefined)"

text \<open>\<open>filters.depthMax ? parseFloat(filters.depthMax) : undefined\<close>.\<close>

definition depth_or_undefined :: "string option \<Rightarrow> jsval" where
  "depth_or_undefined x =
     (case x of None \<Rightarrow> JUndefined | Some s \<Rightarrow> if s \<noteq> [] then JNum (parseFloat_str s) else JUndefined)"

text \<open>
  \<open>handleSubmit\<close> builds the object \<open>apiFilters\<close> and hands it to \<open>onFilterChange\<close>; the
  object is the list of its entries in the order \<open>Object.entries\<close> gives them.
\<close>

definition handleSubmit :: "filters \<Rightarrow> (string \<times> jsval) list" where
  "handleSubmit f =
     [(''lat_min'', or_undefined (latMin f)),
      (''lat_max'', or_undefined (latMax f)),
      (''lon_min'', or_undefined (lonMin f)),
      (''lon_max'', or_undefined (lonMax f)),
      (''depth_max'', depth_or_undefined (depthMax f)),
      (''start_date'', or_undefined (startDate f)),
      (''end_date'', or_undefined (endDate f))]"

text \<open>
  The query of \<open>fetchArgoFloats\<close>: the entries that \<open>queryParams.append\<close> receives, which
  are those whose value is neither \<open>undefined\<close> nor the empty string.
\<close>

definition query_params :: "(string \<times> jsval) list \<Rightarrow> (string \<times> jsval) list" where
  "query_params filterParams = filter (\<lambda>(key, v). v \<noteq> JUndefined \<and> v \<noteq> JStr []) filterParams"

text \<open>What one field contributes to the query, in the words of the specification.\<close>

definition text_param :: "string \<Rightarrow> string option \<Rightarrow> (string \<times> jsval) list" where
  "text_param key x = (case x of None \<Rightarrow> [] | Some s \<Rightarrow> if s = [] then [] else [(key, JStr s)])"

definition float_param :: "string \<Rightarrow> string option \<Rightarrow> (string \<times> jsval) list" where
  "float_param key x =
     (case x of None \<Rightarrow> [] | Some s \<Rightarrow> if s = [] then [] else [(key, JNum (parseFloat_str s))])"

definition unset :: "string option \<Rightarrow> bool" where
  "unset x \<longleftrightarrow> x = None \<or> x = Some []"

section \<open>Heatmap point derivation: \<open>heatmapData\<close> of \<open>ArgoFloatsMap\<close>\<close>

text \<open>
  A float record as the back end sends it; a property that is missing is \<open>undefined\<close>.
  An entry of the array that is falsy (\<open>null\<close>) is \<open>None\<close>.
\<close>

record argo_float =
  float_lat :: jsval
  float_lng :: jsval
  float_temp :: jsval
  float_salinity :: jsval

datatype heatmap = Temperature | Salinity

record heat_point =
  point_lat :: jsnum
  point_lng :: jsnum
  point_temp :: jsnum
  point_salinity :: jsnum
  point_value :: jsnum

text \<open>The first \<open>filter\<close> callback: validation, then the Indian Ocean bounds.\<close>

definition float_filter :: "argo_float option \<Rightarrow> bool" where
  "float_filter e =
     (case e of
        None \<Rightarrow> False
      | Some f \<Rightarrow>
          (let lat = parseFloat (float_lat f); lng = parseFloat (float_lng f) in
           if isNaN lat \<or> isNaN lng then False
           else if js_gt (js_abs lat) (Fin 90) \<or> js_gt (js_abs lng) (Fin 180) then False
           else js_ge lat (Fin (- 30)) \<and> js_le lat (Fin 30)
              \<and> js_ge lng (Fin 30) \<and> js_le lng (Fin 100)))"

text \<open>\<open>n || 0\<close> on a number: \<open>NaN\<close> and zero give \<open>0\<close>.\<close>

definition or_zero :: "jsnum \<Rightarrow> jsnum" where
  "or_zero n = (if truthy (JNum n) then n else Fin 0)"

text \<open>\<open>float.temp ? parseFloat(float.temp) : 0\<close>.\<close>

definition temp_value :: "jsval \<Rightarrow> jsnum" where
  "temp_value t = (if truthy t then parseFloat t else Fin 0)"

text \<open>
  \<open>salinityStr.split(' ')[0]\<close>: the text before the first space. The text of a number has
  no space, and \<open>parseFloat\<close> reads the number back from it.
\<close>

definition before_space :: "string \<Rightarrow> string" where
  "before_space s = takeWhile (\<lambda>c. c \<noteq> CHR '' '') s"

definition salinity_value :: "jsval \<Rightarrow> jsnum" where
  "salinity_value v =
     or_zero
       (if truthy v then
          (case v of JNum n \<Rightarrow> n | _ \<Rightarrow> parseFloat_str (before_space (to_string v)))
        else parseFloat_str (before_space ''0''))"

text \<open>The \<open>map\<close> callback.\<close>

definition to_point :: "heatmap option \<Rightarrow> argo_float \<Rightarrow> heat_point" where
  "to_point activeHeatmap f =
     (let tempValue = temp_value (float_temp f);
          salinityValue = salinity_value (float_salinity f)
      in \<lparr>point_lat = parseFloat (float_lat f),
          point_lng = parseFloat (float_lng f),
          point_temp = tempValue,
          point_salinity = salinityValue,
          point_value = (if activeHeatmap = Some Temperature then tempValue else salinityValue)\<rparr>)"

text \<open>The last \<open>filter\<close> callback.\<close>

definition point_filter :: "heat_point \<Rightarrow> bool" where
  "point_filter p \<longleftrightarrow> \<not> isNaN (point_value p) \<and> \<not> isNaN (point_lat p) \<and> \<not> isNaN (point_lng p)"

definition heatmapData :: "heatmap option \<Rightarrow> argo_float option list \<Rightarrow> heat_point list" where
  "heatmapData activeHeatmap argoFloats =
     (if argoFloats = [] then []
      else filter point_filter
             (map (to_point activeHeatmap) [f. Some f \<leftarrow> filter float_filter argoFloats]))"

text \<open>
  The rejection rule in the words of the specification: a coordinate that does not parse
  to a finite number, a position outside \<open>[-90,90] \<times> [-180,180]\<close>, or a position outside
  the region \<open>[-30,30] \<times> [30,100]\<close>.
\<close>

definition in_range :: "real \<Rightarrow> real \<Rightarrow> jsnum \<Rightarrow> bool" where
  "in_range lo hi n = (case n of Fin r \<Rightarrow> lo \<le> r \<and> r \<le> hi | _ \<Rightarrow> False)"

definition spec_rejects :: "argo_float \<Rightarrow> bool" where
  "spec_rejects f =
     (let lat = parseFloat (float_lat f); lng = parseFloat (float_lng f) in
      \<not> isFinite lat \<or> \<not> isFinite lng
      \<or> \<not> in_range (- 90) 90 lat \<or> \<not> in_range (- 180) 180 lng
      \<or> \<not> in_range (- 30) 30 lat \<or> \<not> in_range 30 100 lng)"

section \<open>Nearest-point lookup: \<open>handleMapClick\<close>\<close>

subsection \<open>Rounding to a double\<close>

text \<open>
  The lookup computes with doubles: the result of each operation is the double nearest to
  the exact result, the one with the even significand when two are as near, and an
  infinity beyond the largest double. \<open>to_double\<close> is this rounding. A double is a
  multiple of the unit in its last place, \<open>2 powi (e - 52)\<close> for a value between \<open>2 powi e\<close> and
  \<open>2 powi (e + 1)\<close>, and of \<open>2 powi (- 1074)\<close> below \<open>2 powi (- 1022)\<close>.
\<close>

definition round_half_even :: "real \<Rightarrow> int" where
  "round_half_even y =
     (let f = \<lfloor>y\<rfloor>; d = y - of_int f
      in if d < 1 / 2 then f else if 1 / 2 < d then f + 1 else if even f then f else f + 1)"

text \<open>
  The exponent \<open>e\<close> of a positive value: the number of halvings that bring a value of at
  least 1 below 2, or the number of doublings, 1022 at most, that bring a smaller one to 1.
\<close>

function halvings :: "real \<Rightarrow> nat" where
  "halvings a = (if 2 \<le> a then Suc (halvings (a / 2)) else 0)"
  by pat_completeness auto
termination
proof (relation "measure (\<lambda>a. nat \<lfloor>a\<rfloor>)", goal_cases)
  case 1
  show ?case by simp
next
  case (2 a)
  then have "\<lfloor>a / 2\<rfloor> < \<lfloor>a\<rfloor>" by linarith
  moreover have "0 < \<lfloor>a\<rfloor>" using 2 by linarith
  ultimately show ?case by simp
qed

function doublings :: "nat \<Rightarrow> real \<Rightarrow> nat" where
  "doublings k a = (if a < 1 \<and> k < 1022 then doublings (Suc k) (2 * a) else k)"
  by pat_completeness auto
termination
  by (relation "measure (\<lambda>(k, a). 1022 - k)") auto

declare halvings.simps [simp del] doublings.simps [simp del]

definition binary_exponent :: "real \<Rightarrow> int" where
  "binary_exponent a = (if 1 \<le> a then int (halvings a) else - int (doublings 0 a))"

definition to_double :: "real \<Rightarrow> jsnum" where
  "to_double x =
     (if x = 0 then Fin 0
      else
        let a = \<bar>x\<bar>;
            ulp = 2 powi (binary_exponent a - 52);
            r = of_int (round_half_even (a / ulp)) * ulp
        in if 2 ^ 1024 \<le> r then (if x < 0 then NegInf else PosInf) else Fin (sgn x * r))"

subsection \<open>Arithmetic\<close>

text \<open>
  The operations of the lookup on numbers, with the special values as IEEE-754 gives them
  and the finite results rounded. \<open>Math.pow(x, 2)\<close> and \<open>Math.sqrt\<close> are taken to round
  as the operators do. The operands are any numbers: on doubles the results are those of
  the code.
\<close>

fun js_neg :: "jsnum \<Rightarrow> jsnum" where
  "js_neg NaN = NaN"
| "js_neg PosInf = NegInf"
| "js_neg NegInf = PosInf"
| "js_neg (Fin r) = Fin (- r)"

fun js_add :: "jsnum \<Rightarrow> jsnum \<Rightarrow> jsnum" where
  "js_add NaN _ = NaN"
| "js_add _ NaN = NaN"
| "js_add PosInf NegInf = NaN"
| "js_add NegInf PosInf = NaN"
| "js_add PosInf _ = PosInf"
| "js_add _ PosInf = PosInf"
| "js_add NegInf _ = NegInf"
| "js_add _ NegInf = NegInf"
| "js_add (Fin a) (Fin b) = to_double (a + b)"

definition js_sub :: "jsnum \<Rightarrow> jsnum \<Rightarrow> jsnum" where
  "js_sub a b = js_add a (js_neg b)"

text \<open>The sign of a number that is not \<open>NaN\<close>, for the products with an infinity.\<close>

fun js_sgn :: "jsnum \<Rightarrow> int" where
  "js_sgn NaN = 0"
| "js_sgn PosInf = 1"
| "js_sgn NegInf = - 1"
| "js_sgn (Fin r) = (if r < 0 then - 1 else if r = 0 then 0 else 1)"

fun js_mul :: "jsnum \<Rightarrow> jsnum \<Rightarrow> jsnum" where
  "js_mul NaN _ = NaN"
| "js_mul _ NaN = NaN"
| "js_mul (Fin a) (Fin b) = to_double (a * b)"
| "js_mul a b =
     (if js_sgn a * js_sgn b = 0 then NaN
      else if js_sgn a * js_sgn b < 0 then NegInf else PosInf)"

text \<open>\<open>Math.pow(x, 2)\<close> and \<open>Math.sqrt\<close>.\<close>

fun js_pow2 :: "jsnum \<Rightarrow> jsnum" where
  "js_pow2 NaN = NaN"
| "js_pow2 (Fin r) = to_double (r\<^sup>2)"
| "js_pow2 _ = PosInf"

fun js_sqrt :: "jsnum \<Rightarrow> jsnum" where
  "js_sqrt NaN = NaN"
| "js_sqrt PosInf = PosInf"
| "js_sqrt NegInf = NaN"
| "js_sqrt (Fin r) = (if r < 0 then NaN else to_double (sqrt r))"

text \<open>\<open>Math.round\<close>, and \<open>toFixed(1)\<close> read as the number it prints.\<close>

fun js_round :: "jsnum \<Rightarrow> jsnum" where
  "js_round (Fin r) = Fin (of_int \<lfloor>r + 1 / 2\<rfloor>)"
| "js_round n = n"

fun toFixed1 :: "jsnum \<Rightarrow> jsnum" where
  "toFixed1 (Fin r) = Fin (sgn r * of_int \<lfloor>\<bar>r\<bar> * 10 + 1 / 2\<rfloor> / 10)"
| "toFixed1 n = n"

subsection \<open>The handler\<close>

record latlng =
  click_lat :: jsnum
  click_lng :: jsnum

text \<open>The text \<open>distance\<close> of the popup: a count of metres, or kilometres to one decimal.\<close>

datatype distance_text = MetresAway jsnum | KmAway jsnum

record clicked_point =
  clicked_lat :: jsnum
  clicked_lng :: jsnum
  clicked_value :: jsnum
  clicked_type :: heatmap
  clicked_distance :: distance_text

text \<open>The distance computed in the body of the \<open>forEach\<close>.\<close>

definition point_distance :: "latlng \<Rightarrow> heat_point \<Rightarrow> jsnum" where
  "point_distance clickedLatLng p =
     js_mul
       (js_sqrt (js_add (js_pow2 (js_sub (point_lat p) (click_lat clickedLatLng)))
                        (js_pow2 (js_sub (point_lng p) (click_lng clickedLatLng)))))
       (Fin 100)"

text \<open>One round of the \<open>forEach\<close>, on the pair \<open>(nearestPoint, minDistance)\<close>.\<close>

definition nearest_step :: "latlng \<Rightarrow> heat_point option \<times> jsnum \<Rightarrow> heat_point \<Rightarrow> heat_point option \<times> jsnum" where
  "nearest_step clickedLatLng acc p =
     (let distance = point_distance clickedLatLng p in
      if js_lt distance (snd acc) then (Some p, distance) else acc)"

definition nearest :: "latlng \<Rightarrow> heat_point list \<Rightarrow> heat_point option \<times> jsnum" where
  "nearest clickedLatLng pts = foldl (nearest_step clickedLatLng) (None, PosInf) pts"

text \<open>
  The handler. Its result is the state \<open>clickedPoint\<close> after the click: \<open>prev\<close> where the
  handler returns before any \<open>setClickedPoint\<close>. \<open>has_map\<close> says that the map object is set.
\<close>

definition handleMapClick ::
  "heatmap option \<Rightarrow> bool \<Rightarrow> heat_point list \<Rightarrow> latlng \<Rightarrow> clicked_point option \<Rightarrow> clicked_point option" where
  "handleMapClick activeHeatmap has_map pts clickedLatLng prev =
     (case activeHeatmap of
        None \<Rightarrow> prev
      | Some ty \<Rightarrow>
          if \<not> has_map \<or> pts = [] then prev
          else
            (case nearest clickedLatLng pts of
               (Some nearestPoint, minDistance) \<Rightarrow>
                 if js_lt minDistance (Fin 100) then
                   Some \<lparr>clicked_lat = click_lat clickedLatLng,
                         clicked_lng = click_lng clickedLatLng,
                         clicked_value = point_value nearestPoint,
                         clicked_type = ty,
                         clicked_distance =
                           (if js_lt minDistance (Fin 1)
                            then MetresAway (js_round (js_mul minDistance (Fin 1000)))
                            else KmAway (toFixed1 minDistance))\<rparr>
                 else None
             | (None, minDistance) \<Rightarrow> None))"




section \<open>Synthetic depth profile: \<open>generateDepthProfile\<close>\<close>

text \<open>
  \<open>Math.random\<close> is the sequence \<open>random\<close> of the values its successive calls return;
  the loop carries the number \<open>k\<close> of calls made so far.
\<close>









section \<open>The chat session: \<open>handleSendMessage\<close>\<close>

text \<open>\<open>String.prototype.trim\<close>.\<close>

definition js_trim :: "string \<Rightarrow> string" where
  "js_trim s = rev (dropWhile is_ws (rev (dropWhile is_ws s)))"

datatype sender = User | Bot

text \<open>
  A chat message. A property the code leaves out of the object is \<open>False\<close> for \<open>isError\<close>
  and \<open>JUndefined\<close> for \<open>data\<close>.
\<close>

record chat_message =
  msg_id :: int
  msg_text :: jsval
  msg_sender :: sender
  msg_timestamp :: string
  msg_isError :: bool
  msg_data :: jsval

record chat_state =
  messages :: "chat_message list"
  inputValue :: string
  isLoading :: bool

text \<open>
  What the handler reads from its surroundings: the clock when the user's message is built
  and when the reply is built (\<open>Date.now()\<close> and \<open>new Date().toISOString()\<close>), and what
  the request to \<open>/ask\<close> comes to.
\<close>

record clock =
  now_sent :: int
  iso_sent :: string
  now_replied :: int
  iso_replied :: string

text \<open>
  The body of a response as \<open>response.json()\<close> gives it: no JSON at all, \<open>null\<close>, or a
  value with its properties \<open>answer\<close> and \<open>data\<close> (\<open>JUndefined\<close> where it has none).
\<close>

datatype json_body = InvalidJson | NullBody | Body jsval jsval

datatype ask_result = NetworkError | Response nat json_body

datatype thrown = FetchFailed | HttpError nat | SyntaxError | TypeError

definition response_ok :: "nat \<Rightarrow> bool" where
  "response_ok status \<longleftrightarrow> 200 \<le> status \<and> status \<le> 299"

text \<open>The \<open>try\<close> block: the bot's message, or what is thrown.\<close>

definition ask_try :: "clock \<Rightarrow> ask_result \<Rightarrow> thrown + chat_message" where
  "ask_try clk res =
     (case res of
        NetworkError \<Rightarrow> Inl FetchFailed
      | Response status body \<Rightarrow>
          if \<not> response_ok status then Inl (HttpError status)
          else
            (case body of
               InvalidJson \<Rightarrow> Inl SyntaxError
             | NullBody \<Rightarrow> Inl TypeError
             | Body answer dat \<Rightarrow>
                 Inr \<lparr>msg_id = now_replied clk + 1,
                      msg_text = (if truthy answer then answer
                                  else JStr ''I received your message but couldn't process it at the moment.''),
                      msg_sender = Bot,
                      msg_timestamp = iso_replied clk,
                      msg_isError = False,
                      msg_data = dat\<rparr>))"

definition errorMessage :: "clock \<Rightarrow> chat_message" where
  "errorMessage clk =
     \<lparr>msg_id = now_replied clk + 1,
      msg_text = JStr ''Sorry, I encountered an error processing your request. Please try again later.'',
      msg_sender = Bot,
      msg_timestamp = iso_replied clk,
      msg_isError = True,
      msg_data = JUndefined\<rparr>"

definition userMessage :: "clock \<Rightarrow> string \<Rightarrow> chat_message" where
  "userMessage clk messageText =
     \<lparr>msg_id = now_sent clk,
      msg_text = JStr messageText,
      msg_sender = User,
      msg_timestamp = iso_sent clk,
      msg_isError = False,
      msg_data = JUndefined\<rparr>"

definition handleSendMessage :: "clock \<Rightarrow> ask_result \<Rightarrow> chat_state \<Rightarrow> chat_state" where
  "handleSendMessage clk res st =
     (let messageText = js_trim (inputValue st) in
      if messageText = [] then st
      else
        let st1 = st\<lparr>messages := messages st @ [userMessage clk messageText],
                      inputValue := [], isLoading := True\<rparr>;
            st2 = (case ask_try clk res of
                     Inr botMessage \<Rightarrow> st1\<lparr>messages := messages st1 @ [botMessage]\<rparr>
                   | Inl error \<Rightarrow> st1\<lparr>messages := messages st1 @ [errorMessage clk]\<rparr>)
        in st2\<lparr>isLoading := False\<rparr>)"

text \<open>A request that fails, in the words of the specification.\<close>

definition request_fails :: "ask_result \<Rightarrow> bool" where
  "request_fails res =
     (case res of NetworkError \<Rightarrow> True | Response status body \<Rightarrow> status < 200 \<or> 299 < status)"

section \<open>Regular expressions\<close>

text \<open>
  The regular expressions of the formatters are sequences of character classes, each with
  a count, of capturing groups and of the anchors \<open>^\<close> and \<open>$\<close>; a count is never put on a
  group. \<open>Rep c lo hi greedy\<close> is the class \<open>c\<close> taken \<open>lo\<close> to \<open>hi\<close> times (\<open>None\<close>: no upper
  bound), as many as possible first when \<open>greedy\<close> and as few as possible first otherwise.
  \<open>Grp alts\<close> is a capturing group of alternatives, tried from left to right.
\<close>

datatype rx =
    Rep "char \<Rightarrow> bool" nat "nat option" bool
  | Grp "rx list list"
  | Bol bool
  | Eol bool

text \<open>Line terminators among the code units below 256, for \<open>.\<close>, \<open>^\<close> and \<open>$\<close>.\<close>

definition is_line_end :: "char \<Rightarrow> bool" where
  "is_line_end c \<longleftrightarrow> c = CHR 0x0A \<or> c = CHR 0x0D"

text \<open>
  The counts a class can take when \<open>n\<close> characters of the class lie ahead, in the order
  in which the matcher tries them.
\<close>

definition counts :: "nat \<Rightarrow> nat option \<Rightarrow> bool \<Rightarrow> nat \<Rightarrow> nat list" where
  "counts lo hi greedy n =
     (let most = (case hi of None \<Rightarrow> n | Some h \<Rightarrow> min h n);
          ks = [lo..<Suc most]
      in if greedy then rev ks else ks)"

text \<open>The character before a position, after the text \<open>t\<close> has been consumed.\<close>

definition prev_after :: "char option \<Rightarrow> string \<Rightarrow> char option" where
  "prev_after prev t = (if t = [] then prev else Some (last t))"

text \<open>
  All the ways a sequence matches at the start of \<open>s\<close>, in the order of the backtracking
  matcher: each is the number of characters consumed and the captures of the groups.
  \<open>prev\<close> is the character before \<open>s\<close> in the input.
\<close>

fun matches :: "rx list \<Rightarrow> char option \<Rightarrow> string \<Rightarrow> (nat \<times> string list) list" where
  "matches [] prev s = [(0, [])]"
| "matches (Rep c lo hi greedy # r) prev s =
     concat (map (\<lambda>k. map (\<lambda>(n, caps). (k + n, caps))
                          (matches r (prev_after prev (take k s)) (drop k s)))
                 (counts lo hi greedy (length (takeWhile c s))))"
| "matches (Grp alts # r) prev s =
     concat (map (\<lambda>alt.
        concat (map (\<lambda>(n1, caps1).
                  map (\<lambda>(n2, caps2). (n1 + n2, take n1 s # caps1 @ caps2))
                      (matches r (prev_after prev (take n1 s)) (drop n1 s)))
                (matches alt prev s)))
        alts)"
| "matches (Bol multiline # r) prev s =
     (if prev = None \<or> (multiline \<and> (case prev of None \<Rightarrow> False | Some c \<Rightarrow> is_line_end c))
      then matches r prev s else [])"
| "matches (Eol multiline # r) prev s =
     (if s = [] \<or> (multiline \<and> (case s of [] \<Rightarrow> False | c # _ \<Rightarrow> is_line_end c))
      then matches r prev s else [])"

definition first_match :: "rx list \<Rightarrow> char option \<Rightarrow> string \<Rightarrow> (nat \<times> string list) option" where
  "first_match r prev s = (case matches r prev s of [] \<Rightarrow> None | m # _ \<Rightarrow> Some m)"


lemma matches_length: "(n, caps) \<in> set (matches r prev s) \<Longrightarrow> n \<le> length s"
proof (induction r prev s arbitrary: n caps rule: matches.induct)
  case (1 prev s)
  then show ?case by simp
next
  case (2 c lo hi greedy r prev s)
  from "2.prems" obtain k m where k: "k \<in> set (counts lo hi greedy (length (takeWhile c s)))"
    and m: "(m, caps) \<in> set (matches r (prev_after prev (take k s)) (drop k s))" and n: "n = k + m"
    by auto
  have "k \<le> length (takeWhile c s)"
    using k by (auto simp: counts_def Let_def split: option.splits if_splits)
  then have "k \<le> length s"
    using length_takeWhile_le [of c s] by linarith
  moreover from "2.IH" [OF k m] have "m \<le> length s - k" by simp
  ultimately show ?case using n by simp
next
  case (3 alts r prev s)
  from "3.prems" obtain alt n1 caps1 n2 caps2 where alt: "alt \<in> set alts"
    and m1: "(n1, caps1) \<in> set (matches alt prev s)"
    and m2: "(n2, caps2) \<in> set (matches r (prev_after prev (take n1 s)) (drop n1 s))"
    and n: "n = n1 + n2"
    by auto
  from "3.IH"(1) [OF alt m1] have "n1 \<le> length s" .
  moreover from "3.IH"(2) [OF alt _ _ m2, of "(n1, caps1)" caps1] m1 have "n2 \<le> length s - n1"
    by simp
  ultimately show ?case using n by simp
next
  case (4 multiline r prev s)
  then show ?case by (auto split: if_splits)
next
  case (5 multiline r prev s)
  then show ?case by (auto split: if_splits)
qed

lemma first_match_length: "first_match r prev s = Some (n, caps) \<Longrightarrow> n \<le> length s"
  using matches_length [of n caps r prev s]
  by (auto simp: first_match_def split: list.splits)

text \<open>
  \<open>s.replace(r, f)\<close> for a regular expression with the \<open>g\<close> flag: the matches are looked
  for from left to right, each after the end of the one before; \<open>f\<close> gets the matched text
  and the captures. After an empty match the search moves on by one character.
\<close>

function replace_all ::
  "rx list \<Rightarrow> (string \<Rightarrow> string list \<Rightarrow> string) \<Rightarrow> char option \<Rightarrow> string \<Rightarrow> string" where
  "replace_all r f prev s =
     (case first_match r prev s of
        None \<Rightarrow> (case s of [] \<Rightarrow> [] | c # cs \<Rightarrow> c # replace_all r f (Some c) cs)
      | Some (n, caps) \<Rightarrow>
          f (take n s) caps
          @ (if n = 0 then (case s of [] \<Rightarrow> [] | c # cs \<Rightarrow> c # replace_all r f (Some c) cs)
             else replace_all r f (prev_after prev (take n s)) (drop n s)))"
  by pat_completeness auto
termination
proof (relation "measure (\<lambda>(r, f, prev, s). length s)", goal_cases)
  case 1
  show ?case by simp
next
  case (2 r f prev s c cs)
  then show ?case by simp
next
  case (3 r f prev s m n caps c cs)
  then show ?case by simp
next
  case (4 r f prev s m n caps)
  then have "n \<le> length s"
    using first_match_length [of r prev s n caps] by auto
  with 4 show ?case by simp
qed

declare replace_all.simps [simp del]

text \<open>Classes and pieces of expressions.\<close>

definition chr :: "char \<Rightarrow> rx" where
  "chr x = Rep (\<lambda>c. c = x) 1 (Some 1) True"

definition ws_star :: rx where
  "ws_star = Rep is_ws 0 None True"

text \<open>The replacement \<open>'$1'\<close>, and a replacement without \<open>$\<close>.\<close>

definition capture :: "nat \<Rightarrow> string list \<Rightarrow> string" where
  "capture i caps = (if i < length caps then caps ! i else [])"

definition first_capture :: "string \<Rightarrow> string list \<Rightarrow> string" where
  "first_capture whole caps = capture 0 caps"

definition const_text :: "string \<Rightarrow> string \<Rightarrow> string list \<Rightarrow> string" where
  "const_text t whole caps = t"

section \<open>The plain-text formatter: \<open>cleanText\<close>\<close>

text \<open>
  \<open>cleanText\<close> first lets the browser parse the text as HTML (\<open>temp.innerHTML = textStr\<close>)
  and reads \<open>temp.textContent\<close> back. The HTML parser is the browser's and not the
  program's: it is the parameter \<open>textContent\<close> of \<open>cleanText\<close>, the function from the text
  assigned to \<open>innerHTML\<close> to the text content of the element, and \<open>cleanText\<close> is defined
  for every such function and every text.

  What the properties below assume of the parser is \<open>identity_on_text\<close>: a text that is
  character data to the HTML tokenizer has itself as its text content. Such a text has no
  \<open><\<close>, which opens a tag, no carriage return, which the parser reads as a line feed, no
  null character, which it drops, and no \<open>&\<close> directly before an ASCII letter, a digit or
  \<open>#\<close>, where a character reference may start. Nothing is assumed of the parser on the
  other texts.
\<close>

text \<open>No character with \<open>P\<close> stands directly before a character with \<open>Q\<close>.\<close>

fun no_pair :: "(char \<Rightarrow> bool) \<Rightarrow> (char \<Rightarrow> bool) \<Rightarrow> string \<Rightarrow> bool" where
  "no_pair P Q (a # b # r) = (\<not> (P a \<and> Q b) \<and> no_pair P Q (b # r))"
| "no_pair P Q [a] = True"
| "no_pair P Q [] = True"

definition reference_start :: "char \<Rightarrow> bool" where
  "reference_start c \<longleftrightarrow>
     is_digit c \<or> c \<in> set ''abcdefghijklmnopqrstuvwxyz'' \<or> c \<in> set ''ABCDEFGHIJKLMNOPQRSTUVWXYZ''
     \<or> c = CHR ''#''"

definition character_data :: "string \<Rightarrow> bool" where
  "character_data t \<longleftrightarrow>
     \<not> list_ex (\<lambda>c. c \<in> set [CHR ''<'', CHR 0x0D, CHR 0x00]) t
     \<and> no_pair (\<lambda>c. c = CHR ''&'') reference_start t"

definition identity_on_text :: "(string \<Rightarrow> string) \<Rightarrow> bool" where
  "identity_on_text textContent \<longleftrightarrow> (\<forall>t. character_data t \<longrightarrow> textContent t = t)"

text \<open>The chain of \<open>replace\<close> calls and the final \<open>trim\<close>, in the order of the source.\<close>

definition clean_chain :: "string \<Rightarrow> string" where
  "clean_chain clean =
     js_trim
      (replace_all [ws_star, chr CHR ''!'', chr CHR ''['', Rep (\<lambda>c. c \<noteq> CHR '']'') 0 None True,
                    chr CHR '']'', chr CHR ''('', Rep (\<lambda>c. c \<noteq> CHR '')'') 1 None True, chr CHR '')'',
                    ws_star] (const_text []) None
      (replace_all [ws_star, chr CHR ''['', Grp [[Rep (\<lambda>c. c \<noteq> CHR '']'') 1 None True]],
                    chr CHR '']'', chr CHR ''('', Rep (\<lambda>c. c \<noteq> CHR '')'') 1 None True, chr CHR '')'',
                    ws_star] first_capture None
      (replace_all [ws_star, chr (CHR 0x60), Grp [[Rep (\<lambda>c. c \<noteq> CHR 0x60) 1 None True]],
                    chr (CHR 0x60), ws_star] first_capture None
      (replace_all [ws_star, Rep (\<lambda>c. c = CHR 0x60) 3 None True, Rep (\<lambda>c. True) 0 None False,
                    Rep (\<lambda>c. c = CHR 0x60) 3 None True, ws_star] (const_text []) None
      (replace_all [ws_star, Rep (\<lambda>c. c \<in> set ''-*_'') 2 None True, ws_star] (const_text []) None
      (replace_all [Rep is_ws 1 None True] (const_text '' '') None
      (replace_all [ws_star, Rep is_digit 1 None True, chr CHR ''.'', ws_star] (const_text []) None
      (replace_all [ws_star, chr CHR ''-'', ws_star] (const_text []) None
      (replace_all [ws_star, chr CHR ''*'', ws_star] (const_text []) None
      (replace_all [ws_star, Rep (\<lambda>c. c = CHR ''#'') 1 None True, ws_star] (const_text []) None
      (replace_all [chr CHR ''<'', Rep (\<lambda>c. c \<noteq> CHR ''>'') 0 None True,
                    Rep (\<lambda>c. c = CHR ''>'') 0 (Some 1) True] (const_text []) None
         clean)))))))))))"

text \<open>
  \<open>cleanText\<close> on a string. The empty string is falsy and gives the empty string at once.
  Where the text content is empty the code reads \<open>innerText\<close>, which is the text content
  again for an element that is not rendered, and then \<open>''\<close>: the chain runs on the empty
  string in each case. No step of the \<open>try\<close> block throws on a string.
\<close>

definition cleanText :: "(string \<Rightarrow> string) \<Rightarrow> string \<Rightarrow> string" where
  "cleanText textContent text = (if text = [] then [] else clean_chain (textContent text))"

subsection \<open>Texts the chain leaves as they are\<close>

text \<open>White space runs collapsed to one space each: what the sixth \<open>replace\<close> computes.\<close>

function squeeze :: "string \<Rightarrow> string" where
  "squeeze [] = []"
| "squeeze (c # cs) = (if is_ws c then CHR '' '' # squeeze (dropWhile is_ws cs) else c # squeeze cs)"
  by pat_completeness auto
termination
  by (relation "measure length") (simp_all add: le_imp_less_Suc length_dropWhile_le)

text \<open>A text whose white space is single spaces, no two of them side by side.\<close>

fun neat :: "string \<Rightarrow> bool" where
  "neat [] = True"
| "neat [c] = (is_ws c \<longrightarrow> c = CHR '' '')"
| "neat (c # d # r) = ((is_ws c \<longrightarrow> c = CHR '' '' \<and> \<not> is_ws d) \<and> neat (d # r))"

text \<open>
  A text in which nothing is left for a pass to act on: no null character and no \<open>&\<close>
  before the start of a character reference, for the parser; no backquote, no \<open>](\<close> of a
  link, no digit directly before a full stop (a list number), no two underscores side by
  side, and white space that is single spaces. A result of the chain has no \<open><\<close>, \<open>#\<close>,
  \<open>*\<close> and \<open>-\<close> in any case: they are not named here.
\<close>

definition settled :: "string \<Rightarrow> bool" where
  "settled t \<longleftrightarrow>
     \<not> list_ex (\<lambda>c. c \<in> set [CHR 0x00, CHR 0x60]) t
     \<and> no_pair (\<lambda>c. c = CHR ''&'') reference_start t
     \<and> no_pair (\<lambda>c. c = CHR '']'') (\<lambda>c. c = CHR ''('') t
     \<and> no_pair is_digit (\<lambda>c. c = CHR ''.'') t
     \<and> no_pair (\<lambda>c. c = CHR ''_'') (\<lambda>c. c = CHR ''_'') t
     \<and> neat t"

text \<open>An expression that matches at no place of a text, whatever stands in front of it.\<close>

definition dead :: "rx list \<Rightarrow> string \<Rightarrow> bool" where
  "dead r s \<longleftrightarrow> (\<forall>p k. matches r p (drop k s) = [])"

section \<open>The rich-text formatter: \<open>formatMessageText\<close>\<close>

text \<open>A text as an expression: each of its characters once.\<close>

definition lit :: "string \<Rightarrow> rx list" where
  "lit t = map chr t"

text \<open>
  The first match of an expression without the \<open>g\<close> flag, looked for from the start of the
  text on: the text preceding the match, the length of the match and the captures.
\<close>

fun search :: "rx list \<Rightarrow> char option \<Rightarrow> string \<Rightarrow> (string \<times> nat \<times> string list) option" where
  "search r prev [] =
     (case first_match r prev [] of None \<Rightarrow> None | Some (n, caps) \<Rightarrow> Some ([], n, caps))"
| "search r prev (c # cs) =
     (case first_match r prev (c # cs) of
        Some (n, caps) \<Rightarrow> Some ([], n, caps)
      | None \<Rightarrow>
          (case search r (Some c) cs of
             None \<Rightarrow> None
           | Some (preceding, n, caps) \<Rightarrow> Some (c # preceding, n, caps)))"

text \<open>\<open>r.test(s)\<close>, and \<open>s.replace(r, f)\<close> for an expression without the \<open>g\<close> flag.\<close>

definition test :: "rx list \<Rightarrow> string \<Rightarrow> bool" where
  "test r s = (case search r None s of None \<Rightarrow> False | Some m \<Rightarrow> True)"

definition replace_first :: "rx list \<Rightarrow> (string \<Rightarrow> string list \<Rightarrow> string) \<Rightarrow> string \<Rightarrow> string" where
  "replace_first r f s =
     (case search r None s of
        None \<Rightarrow> s
      | Some (preceding, n, caps) \<Rightarrow>
          preceding @ f (take n (drop (length preceding) s)) caps @ drop (length preceding + n) s)"

text \<open>
  \<open>s.replace(r, f)\<close> with the \<open>g\<close> flag for a callback \<open>f\<close> that keeps a state, here the
  array \<open>codeBlocks\<close>: the callback gets the state and returns the new one.
\<close>

function replace_fold ::
  "rx list \<Rightarrow> ('a \<Rightarrow> string \<Rightarrow> string list \<Rightarrow> string \<times> 'a) \<Rightarrow> 'a \<Rightarrow> char option \<Rightarrow> string
     \<Rightarrow> string \<times> 'a" where
  "replace_fold r f st prev s =
     (case first_match r prev s of
        None \<Rightarrow>
          (case s of
             [] \<Rightarrow> ([], st)
           | c # cs \<Rightarrow> (let (out, st') = replace_fold r f st (Some c) cs in (c # out, st')))
      | Some (n, caps) \<Rightarrow>
          (let (piece, st1) = f st (take n s) caps in
           if n = 0 then
             (case s of
                [] \<Rightarrow> (piece, st1)
              | c # cs \<Rightarrow> (let (out, st') = replace_fold r f st1 (Some c) cs in (piece @ c # out, st')))
           else
             (let (out, st') = replace_fold r f st1 (prev_after prev (take n s)) (drop n s)
              in (piece @ out, st'))))"
  by pat_completeness auto
termination
proof (relation "measure (\<lambda>(r, f, st, prev, s). length s)", goal_cases)
  case 1
  show ?case by simp
next
  case (2 r f st prev s c cs)
  then show ?case by simp
next
  case (3 r f st prev s m n caps x piece st1 c cs)
  then show ?case by simp
next
  case (4 r f st prev s m n caps x piece st1)
  then have "n \<le> length s"
    using first_match_length [of r prev s n caps] by auto
  with 4 show ?case by simp
qed

declare replace_fold.simps [simp del]

subsection \<open>Texts as patterns\<close>

text \<open>\<open>s.includes(t)\<close>, \<open>s.endsWith(t)\<close> and \<open>s.split(sep)\<close> for a separator that is not empty.\<close>

fun includes_text :: "string \<Rightarrow> string \<Rightarrow> bool" where
  "includes_text [] t = (t = [])"
| "includes_text (c # cs) t = (take (length t) (c # cs) = t \<or> includes_text cs t)"

definition endsWith :: "string \<Rightarrow> string \<Rightarrow> bool" where
  "endsWith s t \<longleftrightarrow> length t \<le> length s \<and> drop (length s - length t) s = t"

function split_from :: "string \<Rightarrow> string \<Rightarrow> string \<Rightarrow> string list" where
  "split_from sep piece s =
     (case s of
        [] \<Rightarrow> [piece]
      | c # cs \<Rightarrow>
          if sep \<noteq> [] \<and> take (length sep) s = sep
          then piece # split_from sep [] (drop (length sep) s)
          else split_from sep (piece @ [c]) cs)"
  by pat_completeness auto
termination
  by (relation "measure (\<lambda>(sep, piece, s). length s)") auto

declare split_from.simps [simp del]

definition split_text :: "string \<Rightarrow> string \<Rightarrow> string list" where
  "split_text s sep = split_from sep [] s"

text \<open>
  \<open>s.replace(pattern, replacement)\<close> for a pattern that is a text: the first occurrence is
  replaced, and in the replacement \<open>$$\<close> stands for \<open>$\<close>, \<open>$&\<close> for the occurrence, and
  \<open>$\<close> with a backquote or a quote for the text preceding or following it.
\<close>

fun get_substitution :: "string \<Rightarrow> string \<Rightarrow> string \<Rightarrow> string \<Rightarrow> string" where
  "get_substitution matched preceding following (c # d # r) =
     (if c = CHR ''$'' \<and> d = CHR ''$'' then CHR ''$'' # get_substitution matched preceding following r
      else if c = CHR ''$'' \<and> d = CHR ''&'' then matched @ get_substitution matched preceding following r
      else if c = CHR ''$'' \<and> d = CHR 0x60 then preceding @ get_substitution matched preceding following r
      else if c = CHR ''$'' \<and> d = CHR 0x27 then following @ get_substitution matched preceding following r
      else c # get_substitution matched preceding following (d # r))"
| "get_substitution matched preceding following r = r"

fun find_text :: "string \<Rightarrow> string \<Rightarrow> string \<Rightarrow> (string \<times> string) option" where
  "find_text pattern preceding [] = (if pattern = [] then Some (preceding, []) else None)"
| "find_text pattern preceding (c # cs) =
     (if take (length pattern) (c # cs) = pattern
      then Some (preceding, drop (length pattern) (c # cs))
      else find_text pattern (preceding @ [c]) cs)"

definition replace_text :: "string \<Rightarrow> string \<Rightarrow> string \<Rightarrow> string" where
  "replace_text s pattern replacement =
     (case find_text pattern [] s of
        None \<Rightarrow> s
      | Some (preceding, following) \<Rightarrow> preceding @ get_substitution pattern preceding following replacement @ following)"

text \<open>A count printed in decimal, as a template literal prints it.\<close>

definition digit_char :: "nat \<Rightarrow> char" where
  "digit_char d = ''0123456789'' ! d"

function show_nat :: "nat \<Rightarrow> string" where
  "show_nat n =
     (if n < 10 then [digit_char n] else show_nat (n div 10) @ [digit_char (n mod 10)])"
  by pat_completeness auto
termination
  by (relation "measure id") auto

declare show_nat.simps [simp del]

subsection \<open>The steps of \<open>formatMessageText\<close>\<close>

definition any_char :: "char \<Rightarrow> bool" where
  "any_char c = True"

text \<open>\<open>https?:\/\/\<close>, the start of the three URL expressions.\<close>

definition url_start :: "rx list" where
  "url_start = lit ''http'' @ [Rep (\<lambda>c. c = CHR ''s'') 0 (Some 1) True] @ lit ''://''"

text \<open>The initial cleaning, from the removal of tags to the \<open>trim\<close>.\<close>

definition initial_cleaning :: "string \<Rightarrow> string" where
  \<open>initial_cleaning text =
     js_trim
      (replace_all [Rep is_ws 2 None True] (const_text '' '') None
      (replace_all [chr (CHR 0x5C), chr CHR ''t''] (const_text ''  '') None
      (replace_all [chr (CHR 0x5C), chr CHR ''n''] (const_text [CHR 0x0A]) None
      (replace_all [chr (CHR 0x5C), chr (CHR 0x5C)] (const_text [CHR 0x5C]) None
      (replace_all [chr (CHR 0x5C), chr CHR ''"''] (const_text ''"'') None
      (replace_all [chr CHR ''<'', Rep (\<lambda>c. c \<noteq> CHR ''>'') 0 None True, chr CHR ''>'']
         (const_text []) None text))))))\<close>

text \<open>
  The callback that takes a fenced block out: the code goes to the end of \<open>codeBlocks\<close>
  and the placeholder with its index takes its place.
\<close>

definition fence :: "rx list" where
  "fence = [chr (CHR 0x60), chr (CHR 0x60), chr (CHR 0x60)]"

definition placeholder :: "nat \<Rightarrow> string" where
  "placeholder index = ''___CODE_BLOCK_'' @ show_nat index @ ''___''"

definition push_code :: "string list \<Rightarrow> string \<Rightarrow> string list \<Rightarrow> string \<times> string list" where
  "push_code codeBlocks whole caps =
     (let pushed = codeBlocks @ [capture 0 caps]
      in (placeholder (length pushed - 1), pushed))"

definition preserve_code_blocks :: "string \<Rightarrow> string \<times> string list" where
  "preserve_code_blocks cleaned =
     replace_fold (fence @ [Grp [[Rep any_char 0 None False]]] @ fence) push_code [] None cleaned"

text \<open>Bare URLs become markdown links.\<close>

definition handle_urls :: "string \<Rightarrow> string" where
  "handle_urls cleaned =
     replace_all [Grp [url_start @ [Rep (\<lambda>c. \<not> is_ws c \<and> c \<noteq> CHR 0x0A) 1 None True]]]
       (\<lambda>url caps. '' ['' @ url @ ''](''  @ url @ '') '') None cleaned"

text \<open>
  One paragraph: a list, a section header, a key and its value, or a plain paragraph. The
  bullet character of the two list expressions is no code unit below 256 and is left out of
  their classes.
\<close>

definition list_item :: "string \<Rightarrow> string" where
  \<open>list_item item =
     ''<li class="list-item">''
     @ js_trim (replace_first
                 [Bol False, ws_star, Rep (\<lambda>c. is_digit c \<or> c \<in> set ''.-*'') 1 None True, ws_star]
                 (const_text []) item)
     @ ''</li>''\<close>

definition process_paragraph :: "string \<Rightarrow> string" where
  \<open>process_paragraph p0 =
     (let paragraph = js_trim p0 in
      if paragraph = [] then []
      else
        let isNumberedList =
              test [Bol False, ws_star, Rep is_digit 1 None True, chr CHR ''.'', Rep is_ws 1 None True]
                paragraph;
            isBulletList =
              test [Bol False, ws_star, Rep (\<lambda>c. c \<in> set ''-*'') 1 (Some 1) True, Rep is_ws 1 None True]
                paragraph
        in
        if isNumberedList \<or> isBulletList then
          (let listType = (if isNumberedList then ''ol'' else ''ul'');
               items = concat (map list_item
                         (filter (\<lambda>item. js_trim item \<noteq> []) (split_text paragraph [CHR 0x0A])))
           in ''<'' @ listType @ '' class="message-list">'' @ items @ ''</'' @ listType @ ''>'')
        else if endsWith paragraph '':'' \<and> \<not> includes_text paragraph ''http'' then
          ''<h3 class="section-header">'' @ paragraph @ ''</h3>''
        else
          (case search [Bol False, Grp [[Rep (\<lambda>c. c \<noteq> CHR '':'' \<and> c \<noteq> CHR 0x0A) 1 None True]],
                        chr CHR '':'', ws_star, Grp [[Rep any_char 1 None True]], Eol False]
                  None paragraph of
             Some (preceding, n, caps) \<Rightarrow>
               CHR 0x0A # ''        <div class="key-value">''
               @ CHR 0x0A # ''          <span class="key">'' @ capture 0 caps @ '':</span>''
               @ CHR 0x0A # ''          <span class="value">'' @ js_trim (capture 1 caps) @ ''</span>''
               @ CHR 0x0A # ''        </div>''
           | None \<Rightarrow> ''<p class="message-paragraph">'' @ paragraph @ ''</p>''))\<close>

text \<open>\<open>processedParagraphs.join('\n')\<close>.\<close>

fun join_lines :: "string list \<Rightarrow> string" where
  "join_lines [] = []"
| "join_lines [p] = p"
| "join_lines (p # q # r) = p @ CHR 0x0A # join_lines (q # r)"

text \<open>Markdown links and the URLs left bare become anchors.\<close>

definition anchor :: "string \<Rightarrow> string \<Rightarrow> string" where
  \<open>anchor href label =
     ''<a href="'' @ href @ ''" target="_blank" rel="noopener noreferrer" class="message-link">''
     @ label @ ''</a>''\<close>

definition link_callback :: "string \<Rightarrow> string list \<Rightarrow> string" where
  \<open>link_callback whole caps =
     (let url = capture 1 caps;
          cleanUrl = js_trim (replace_all [Rep (\<lambda>c. is_ws c \<or> c \<in> set ''<>"'') 1 None True]
                                (const_text []) None url)
      in anchor (if test (Bol False # url_start) cleanUrl then cleanUrl else ''https://'' @ cleanUrl)
                (capture 0 caps))\<close>

definition process_links :: "string \<Rightarrow> string" where
  "process_links formatted =
     replace_all [chr CHR ''['', Grp [[Rep (\<lambda>c. c \<noteq> CHR '']'') 1 None True]], chr CHR '']'',
                  chr CHR ''('', Grp [[Rep (\<lambda>c. c \<noteq> CHR '')'') 1 None True]], chr CHR '')'']
       link_callback None formatted"

definition naked_urls :: "string \<Rightarrow> string" where
  "naked_urls formatted =
     replace_all [Grp [url_start @ [Rep (\<lambda>c. \<not> is_ws c \<and> c \<noteq> CHR 0x0A \<and> c \<noteq> CHR ''<'') 1 None True]]]
       (\<lambda>url caps. if includes_text url ''<a '' then url else anchor url url) None formatted"

text \<open>
  \<open>codeBlocks.forEach\<close>: the placeholder of each block, in the order of the array, is
  replaced by the block in \<open>pre\<close> and \<open>code\<close> tags.
\<close>

fun restore_code_blocks :: "nat \<Rightarrow> string list \<Rightarrow> string \<Rightarrow> string" where
  "restore_code_blocks index [] formatted = formatted"
| \<open>restore_code_blocks index (code # rest) formatted =
     restore_code_blocks (index + 1) rest
       (replace_text formatted (placeholder index)
          (''<pre class="code-block"><code>'' @ code @ ''</code></pre>''))\<close>

text \<open>Headers, bold, italic and inline code.\<close>

definition header_rx :: "rx list \<Rightarrow> rx list" where
  "header_rx marks =
     Bol True # marks
     @ [Rep is_ws 1 None True, Grp [[Rep (\<lambda>c. \<not> is_line_end c) 1 None False]],
        Grp [[chr (CHR 0x0A)], [Eol True]]]"

definition wrap :: "string \<Rightarrow> string \<Rightarrow> string \<Rightarrow> string list \<Rightarrow> string" where
  "wrap opening closing whole caps = opening @ capture 0 caps @ closing"

definition format_marks :: "string \<Rightarrow> string" where
  \<open>format_marks formatted =
     replace_all [chr (CHR 0x60), Grp [[Rep (\<lambda>c. c \<noteq> CHR 0x60) 1 None True]], chr (CHR 0x60)]
       (wrap ''<code class="inline-code">'' ''</code>'') None
     (replace_all [chr CHR ''*'', Grp [[Rep (\<lambda>c. c \<noteq> CHR ''*'') 1 None True]], chr CHR ''*'']
       (wrap ''<em>'' ''</em>'') None
     (replace_all [chr CHR ''*'', chr CHR ''*'', Grp [[Rep (\<lambda>c. c \<noteq> CHR ''*'') 1 None True]],
                   chr CHR ''*'', chr CHR ''*'']
       (wrap ''<strong>'' ''</strong>'') None
     (replace_all (header_rx [chr CHR ''#'', chr CHR ''#''])
       (wrap ''<h3 class="message-subheader">'' ''</h3>'') None
     (replace_all (header_rx [chr CHR ''#''])
       (wrap ''<h2 class="message-header">'' ''</h2>'') None formatted))))\<close>

text \<open>The spacing between elements, and line breaks inside \<open>pre\<close>.\<close>

definition block_tags :: "rx list list" where
  "block_tags = map lit [''p'', ''h2'', ''h3'', ''div'', ''pre'', ''ul'', ''ol'']"

definition add_spacing :: "string \<Rightarrow> string" where
  \<open>add_spacing formatted =
     replace_all (lit ''<pre'' @ [Rep (\<lambda>c. c \<noteq> CHR ''>'') 0 None True, chr CHR ''>'',
                    Grp [[Rep any_char 0 None False]]] @ lit ''</pre>'')
       (\<lambda>whole caps. replace_all [chr (CHR 0x0A)] (const_text ''<br>'') None whole) None
     (replace_all (lit ''</'' @ [Grp [lit ''h2'', lit ''h3''], chr CHR ''>''])
       (\<lambda>whole caps. ''</'' @ capture 0 caps @ ''>'' @ [CHR 0x0A]) None
     (replace_all (lit ''</'' @ [Grp [lit ''li''], chr CHR ''>'', ws_star, chr CHR ''<'', Grp [lit ''li'']])
       (\<lambda>whole caps. ''</'' @ capture 0 caps @ ''><'' @ capture 1 caps) None
     (replace_all (lit ''</'' @ [Grp block_tags, chr CHR ''>'', ws_star, chr CHR ''<'', Grp block_tags])
       (\<lambda>whole caps. ''</'' @ capture 0 caps @ ''>'' @ CHR 0x0A # ''<'' @ capture 1 caps) None
       formatted)))\<close>

definition formatMessageText :: "string \<Rightarrow> string" where
  "formatMessageText text =
     (if text = [] then []
      else
        let (cleaned, codeBlocks) = preserve_code_blocks (initial_cleaning text);
            paragraphs = split_text (handle_urls cleaned) [CHR 0x0A, CHR 0x0A];
            formatted = join_lines (map process_paragraph paragraphs)
        in add_spacing
             (format_marks
               (restore_code_blocks 0 codeBlocks (naked_urls (process_links formatted)))))"

text \<open>A fenced code block around \<open>code\<close>, for the inputs of the examples.\<close>

definition fenced :: "string \<Rightarrow> string" where
  "fenced code = replicate 3 (CHR 0x60) @ code @ replicate 3 (CHR 0x60)"

section \<open>Properties of the filter parameter mapping\<close>

lemmas parse_eval = parseFloat_str_def str_sign_def is_ws_def is_digit_def digits_val_def
  digit_val_def exponent_part_def


lemma query_or_undefined:
  "query_params ((key, or_undefined x) # rest) = text_param key x @ query_params rest"
  by (cases x) (simp_all add: query_params_def or_undefined_def text_param_def)

lemma query_depth_or_undefined:
  "query_params ((key, depth_or_undefined x) # rest) = float_param key x @ query_params rest"
  by (cases x) (simp_all add: query_params_def depth_or_undefined_def float_param_def)

lemma query_params_Nil: "query_params [] = []"
  by (simp add: query_params_def)

lemma text_param_unset: "unset x \<Longrightarrow> text_param key x = []"
  by (auto simp: unset_def text_param_def)

lemma float_param_unset: "unset x \<Longrightarrow> float_param key x = []"
  by (auto simp: unset_def float_param_def)

lemma text_param_other: "k \<noteq> key \<Longrightarrow> k \<notin> fst ` set (text_param key x)"
  by (cases x) (simp_all add: text_param_def)

lemma float_param_other: "k \<noteq> key \<Longrightarrow> k \<notin> fst ` set (float_param key x)"
  by (cases x) (simp_all add: float_param_def)

lemma handleSubmit_query:
  "query_params (handleSubmit f) =
     text_param ''lat_min'' (latMin f) @ text_param ''lat_max'' (latMax f)
     @ text_param ''lon_min'' (lonMin f) @ text_param ''lon_max'' (lonMax f)
     @ float_param ''depth_max'' (depthMax f)
     @ text_param ''start_date'' (startDate f) @ text_param ''end_date'' (endDate f)"
  unfolding handleSubmit_def
  by (simp only: query_or_undefined query_depth_or_undefined query_params_Nil append_Nil2)

lemmas param_facts =
  handleSubmit_query text_param_unset float_param_unset text_param_other float_param_other image_Un

text \<open>
  Claim C6. For every submission of the filter panel, the query is made of the fields
  under their snake-case names, in the order of \<open>apiFilters\<close>: \<open>depthMax\<close> goes out as the
  number \<open>parseFloat\<close> reads from it, every other field as its text, and a field that is
  the empty string or \<open>undefined\<close> puts no parameter of its name into the query.
\<close>

theorem filter_parameter_mapping:
  "query_params (handleSubmit f) =
     text_param ''lat_min'' (latMin f) @ text_param ''lat_max'' (latMax f)
     @ text_param ''lon_min'' (lonMin f) @ text_param ''lon_max'' (lonMax f)
     @ float_param ''depth_max'' (depthMax f)
     @ text_param ''start_date'' (startDate f) @ text_param ''end_date'' (endDate f)
   \<and> (unset (latMin f) \<longrightarrow> ''lat_min'' \<notin> fst ` set (query_params (handleSubmit f)))
   \<and> (unset (latMax f) \<longrightarrow> ''lat_max'' \<notin> fst ` set (query_params (handleSubmit f)))
   \<and> (unset (lonMin f) \<longrightarrow> ''lon_min'' \<notin> fst ` set (query_params (handleSubmit f)))
   \<and> (unset (lonMax f) \<longrightarrow> ''lon_max'' \<notin> fst ` set (query_params (handleSubmit f)))
   \<and> (unset (depthMax f) \<longrightarrow> ''depth_max'' \<notin> fst ` set (query_params (handleSubmit f)))
   \<and> (unset (startDate f) \<longrightarrow> ''start_date'' \<notin> fst ` set (query_params (handleSubmit f)))
   \<and> (unset (endDate f) \<longrightarrow> ''end_date'' \<notin> fst ` set (query_params (handleSubmit f)))"
proof (intro conjI impI)
  show "query_params (handleSubmit f) =
     text_param ''lat_min'' (latMin f) @ text_param ''lat_max'' (latMax f)
     @ text_param ''lon_min'' (lonMin f) @ text_param ''lon_max'' (lonMax f)
     @ float_param ''depth_max'' (depthMax f)
     @ text_param ''start_date'' (startDate f) @ text_param ''end_date'' (endDate f)"
    by (rule handleSubmit_query)
next
  assume "unset (latMin f)"
  then show "''lat_min'' \<notin> fst ` set (query_params (handleSubmit f))"
    by (simp add: param_facts)
next
  assume "unset (latMax f)"
  then show "''lat_max'' \<notin> fst ` set (query_params (handleSubmit f))"
    by (simp add: param_facts)
next
  assume "unset (lonMin f)"
  then show "''lon_min'' \<notin> fst ` set (query_params (handleSubmit f))"
    by (simp add: param_facts)
next
  assume "unset (lonMax f)"
  then show "''lon_max'' \<notin> fst ` set (query_params (handleSubmit f))"
    by (simp add: param_facts)
next
  assume "unset (depthMax f)"
  then show "''depth_max'' \<notin> fst ` set (query_params (handleSubmit f))"
    by (simp add: param_facts)
next
  assume "unset (startDate f)"
  then show "''start_date'' \<notin> fst ` set (query_params (handleSubmit f))"
    by (simp add: param_facts)
next
  assume "unset (endDate f)"
  then show "''end_date'' \<notin> fst ` set (query_params (handleSubmit f))"
    by (simp add: param_facts)
qed

theorem filter_parameter_mapping_witness:
  "unset (Some []) \<and> unset None
   \<and> query_params (handleSubmit
        \<lparr>latMin = Some ''-10'', latMax = Some [], lonMin = None, lonMax = Some ''95.5'',
         depthMax = Some ''500'', startDate = Some [], endDate = Some ''2024-01-31''\<rparr>)
     = [(''lat_min'', JStr ''-10''), (''lon_max'', JStr ''95.5''),
        (''depth_max'', JNum (Fin 500)), (''end_date'', JStr ''2024-01-31'')]
   \<and> ''lat_max'' \<notin> fst ` set (query_params (handleSubmit
        \<lparr>latMin = Some ''-10'', latMax = Some [], lonMin = None, lonMax = Some ''95.5'',
         depthMax = Some ''500'', startDate = Some [], endDate = Some ''2024-01-31''\<rparr>))"
  using filter_parameter_mapping
    [of "\<lparr>latMin = Some ''-10'', latMax = Some [], lonMin = None, lonMax = Some ''95.5'',
         depthMax = Some ''500'', startDate = Some [], endDate = Some ''2024-01-31''\<rparr>"]
  by (simp add: unset_def text_param_def float_param_def parse_eval)

text \<open>
  Claim C10. When \<open>depthMax\<close> is a non-empty text from which \<open>parseFloat\<close> reads no
  number, the value mapped to \<open>depth_max\<close> is \<open>NaN\<close>; it is neither \<open>undefined\<close> nor the
  empty string, so the query carries the parameter \<open>depth_max\<close> with the value \<open>NaN\<close>.
\<close>

theorem nan_depth_is_sent:
  assumes "depthMax f = Some s" and "s \<noteq> []" and "parseFloat_str s = NaN"
  shows "depth_or_undefined (depthMax f) = JNum NaN
         \<and> (''depth_max'', JNum NaN) \<in> set (query_params (handleSubmit f))"
proof
  show d: "depth_or_undefined (depthMax f) = JNum NaN"
    using assms by (simp add: depth_or_undefined_def)
  have "(''depth_max'', depth_or_undefined (depthMax f)) \<in> set (handleSubmit f)"
    by (simp add: handleSubmit_def)
  then show "(''depth_max'', JNum NaN) \<in> set (query_params (handleSubmit f))"
    unfolding d by (simp add: query_params_def)
qed

theorem nan_depth_is_sent_witness:
  "parseFloat_str ''abc'' = NaN
   \<and> query_params (handleSubmit
        \<lparr>latMin = Some [], latMax = Some [], lonMin = Some [], lonMax = Some [],
         depthMax = Some ''abc'', startDate = Some [], endDate = Some []\<rparr>)
     = [(''depth_max'', JNum NaN)]"
  using nan_depth_is_sent
    [of "\<lparr>latMin = Some [], latMax = Some [], lonMin = Some [], lonMax = Some [],
         depthMax = Some ''abc'', startDate = Some [], endDate = Some []\<rparr>" "''abc''"]
  by (simp add: handleSubmit_def query_params_def or_undefined_def depth_or_undefined_def parse_eval)

section \<open>Properties of the heatmap point derivation\<close>

lemma float_filter_iff: "float_filter (Some f) \<longleftrightarrow> \<not> spec_rejects f"
proof -
  obtain la lo where la: "parseFloat (float_lat f) = la" and lo: "parseFloat (float_lng f) = lo"
    by simp
  show ?thesis
    unfolding float_filter_def spec_rejects_def
    by (cases la; cases lo)
       (auto simp: la lo Let_def js_gt_def js_ge_def in_range_def)
qed

lemma float_filter_None: "\<not> float_filter None"
  by (simp add: float_filter_def)

lemma kept_floats: "[f. Some f \<leftarrow> filter float_filter fs] = [f. Some f \<leftarrow> fs, \<not> spec_rejects f]"
proof (induction fs)
  case Nil
  show ?case by simp
next
  case (Cons e fs)
  show ?case
  proof (cases e)
    case None
    with Cons show ?thesis by (simp add: float_filter_None)
  next
    case (Some f)
    with Cons show ?thesis by (simp add: float_filter_iff)
  qed
qed

lemma heatmapData_unfold:
  "heatmapData m fs = filter point_filter (map (to_point m) [f. Some f \<leftarrow> filter float_filter fs])"
  by (simp add: heatmapData_def)

lemma heatmapData_drop_rejected:
  assumes "spec_rejects f"
  shows "heatmapData m (xs @ Some f # ys) = heatmapData m (xs @ ys)"
proof -
  have "\<not> float_filter (Some f)"
    using assms by (simp add: float_filter_iff)
  then have "filter float_filter (xs @ Some f # ys) = filter float_filter (xs @ ys)"
    by simp
  then show ?thesis
    by (simp only: heatmapData_unfold)
qed

lemma set_kept: "set [f. Some f \<leftarrow> fs, \<not> spec_rejects f] = {f. Some f \<in> set fs \<and> \<not> spec_rejects f}"
  by (auto split: option.splits)

lemma accepted_position:
  assumes "\<not> spec_rejects f"
  shows "in_range (- 30) 30 (point_lat (to_point m f)) \<and> in_range 30 100 (point_lng (to_point m f))"
  using assms by (simp add: spec_rejects_def to_point_def Let_def)

text \<open>
  Claim C1. For every list of float records, the heat points are derived from the records
  the rejection rule lets through and from no other: a record whose latitude or longitude
  does not parse to a finite number, or lies outside \<open>[-90,90] \<times> [-180,180]\<close>, or lies
  outside the region (latitude in \<open>[-30,30]\<close>, longitude in \<open>[30,100]\<close>) contributes no
  heat point (the list is the same with the record and without it), and every heat point
  comes from a record that is not rejected and lies inside the region.
\<close>

theorem rejected_floats_never_appear:
  "heatmapData m fs = filter point_filter (map (to_point m) [f. Some f \<leftarrow> fs, \<not> spec_rejects f])
   \<and> (spec_rejects r \<longrightarrow> heatmapData m (xs @ Some r # ys) = heatmapData m (xs @ ys))
   \<and> (\<forall>p \<in> set (heatmapData m fs).
         (\<exists>f. Some f \<in> set fs \<and> \<not> spec_rejects f \<and> p = to_point m f)
         \<and> in_range (- 30) 30 (point_lat p) \<and> in_range 30 100 (point_lng p))"
proof (intro conjI ballI impI)
  show eq: "heatmapData m fs = filter point_filter (map (to_point m) [f. Some f \<leftarrow> fs, \<not> spec_rejects f])"
    by (simp only: heatmapData_unfold kept_floats)
  show "heatmapData m (xs @ Some r # ys) = heatmapData m (xs @ ys)" if "spec_rejects r"
    using that by (rule heatmapData_drop_rejected)
  fix p assume "p \<in> set (heatmapData m fs)"
  then have "p \<in> to_point m ` set [f. Some f \<leftarrow> fs, \<not> spec_rejects f]"
    unfolding eq by auto
  then obtain f where f: "Some f \<in> set fs" "\<not> spec_rejects f" "p = to_point m f"
    unfolding set_kept by blast
  then show "\<exists>f. Some f \<in> set fs \<and> \<not> spec_rejects f \<and> p = to_point m f" by blast
  from f accepted_position[of f m]
  show "in_range (- 30) 30 (point_lat p)" "in_range 30 100 (point_lng p)" by simp_all
qed

theorem rejected_floats_never_appear_witness:
  "spec_rejects \<lparr>float_lat = JStr ''45'', float_lng = JStr ''50'',
                  float_temp = JStr ''28'', float_salinity = JStr ''35 PSU''\<rparr>
   \<and> spec_rejects \<lparr>float_lat = JStr ''north'', float_lng = JNum (Fin 50),
                  float_temp = JNum (Fin 20), float_salinity = JNum (Fin 34)\<rparr>
   \<and> heatmapData (Some Temperature)
       [Some \<lparr>float_lat = JStr ''10'', float_lng = JStr ''50'',
              float_temp = JStr ''28'', float_salinity = JStr ''35 PSU''\<rparr>,
        None,
        Some \<lparr>float_lat = JStr ''45'', float_lng = JStr ''50'',
              float_temp = JStr ''28'', float_salinity = JStr ''35 PSU''\<rparr>,
        Some \<lparr>float_lat = JStr ''north'', float_lng = JNum (Fin 50),
              float_temp = JNum (Fin 20), float_salinity = JNum (Fin 34)\<rparr>]
     = [\<lparr>point_lat = Fin 10, point_lng = Fin 50, point_temp = Fin 28,
         point_salinity = Fin 35, point_value = Fin 28\<rparr>]"
  using rejected_floats_never_appear
    [where m = "Some Temperature" and fs =
        "[Some \<lparr>float_lat = JStr ''10'', float_lng = JStr ''50'',
                float_temp = JStr ''28'', float_salinity = JStr ''35 PSU''\<rparr>,
          None,
          Some \<lparr>float_lat = JStr ''45'', float_lng = JStr ''50'',
                float_temp = JStr ''28'', float_salinity = JStr ''35 PSU''\<rparr>,
          Some \<lparr>float_lat = JStr ''north'', float_lng = JNum (Fin 50),
                float_temp = JNum (Fin 20), float_salinity = JNum (Fin 34)\<rparr>]"]
  by (simp add: spec_rejects_def in_range_def to_point_def temp_value_def salinity_value_def
        or_zero_def before_space_def point_filter_def parse_eval Let_def)

lemma or_zero_not_nan: "\<not> isNaN (or_zero n)"
  by (cases n) (simp_all add: or_zero_def)

lemma or_zero_eq: "or_zero n = (if isNaN n then Fin 0 else n)"
  by (cases n) (auto simp: or_zero_def)

lemma before_space_zero: "parseFloat_str (before_space ''0'') = Fin 0"
  by (simp add: before_space_def parse_eval)

lemma salinity_falsy: "\<not> truthy v \<Longrightarrow> salinity_value v = Fin 0"
  by (simp add: salinity_value_def before_space_zero or_zero_def)

lemma salinity_string:
  "s \<noteq> [] \<Longrightarrow> salinity_value (JStr s) =
     (if isNaN (parseFloat_str (before_space s)) then Fin 0 else parseFloat_str (before_space s))"
  by (simp add: salinity_value_def or_zero_eq)

lemma before_space_split:
  "CHR '' '' \<notin> set p \<Longrightarrow> before_space (p @ CHR '' '' # rest) = p"
  by (induction p) (auto simp: before_space_def)

lemma before_space_whole: "CHR '' '' \<notin> set s \<Longrightarrow> before_space s = s"
  unfolding before_space_def by (rule takeWhile_eq_all_conv [THEN iffD2]) auto

text \<open>
  Claim C2. The salinity of a heat point is read from the text before the first space of
  the input, and an input that is missing or from which no number can be read gives 0:
  \<open>"34.5 PSU"\<close> gives 34.5, \<open>"abc"\<close> gives 0, and \<open>undefined\<close> gives 0. The text after
  the first space is not read, so \<open>" 35 PSU"\<close>, whose first space comes first, gives 0.
  In general a text \<open>p\<close> without a space, followed by a space and any text, gives the number
  read from \<open>p\<close> alone; a text without a space gives the number read from it; a number gives
  itself; and where the number read is \<open>NaN\<close> the salinity is 0.
\<close>

theorem salinity_parsing:
  "salinity_value (JStr ''34.5 PSU'') = Fin 34.5
   \<and> salinity_value (JStr ''abc'') = Fin 0
   \<and> salinity_value JUndefined = Fin 0
   \<and> salinity_value (JStr '' 35 PSU'') = Fin 0
   \<and> (CHR '' '' \<notin> set p \<longrightarrow>
         salinity_value (JStr (p @ CHR '' '' # rest)) =
           (if isNaN (parseFloat_str p) then Fin 0 else parseFloat_str p))
   \<and> (s \<noteq> [] \<and> CHR '' '' \<notin> set s \<longrightarrow>
         salinity_value (JStr s) =
           (if isNaN (parseFloat_str s) then Fin 0 else parseFloat_str s))
   \<and> salinity_value (JNum n) = (if isNaN n then Fin 0 else n)
   \<and> (\<not> truthy v \<longrightarrow> salinity_value v = Fin 0)
   \<and> point_salinity (to_point m f) = salinity_value (float_salinity f)"
proof (intro conjI impI)
  show "salinity_value (JStr ''34.5 PSU'') = Fin 34.5"
    by (simp add: salinity_value_def or_zero_def before_space_def parse_eval)
  show "salinity_value (JStr ''abc'') = Fin 0"
    by (simp add: salinity_value_def or_zero_def before_space_def parse_eval)
  show "salinity_value JUndefined = Fin 0"
    by (rule salinity_falsy) simp
  show "salinity_value (JStr '' 35 PSU'') = Fin 0"
    by (simp add: salinity_value_def or_zero_def before_space_def parse_eval)
  show "salinity_value (JStr (p @ CHR '' '' # rest)) =
      (if isNaN (parseFloat_str p) then Fin 0 else parseFloat_str p)"
    if "CHR '' '' \<notin> set p"
    using that salinity_string [of "p @ CHR '' '' # rest"] by (simp add: before_space_split)
  show "salinity_value (JStr s) = (if isNaN (parseFloat_str s) then Fin 0 else parseFloat_str s)"
    if "s \<noteq> [] \<and> CHR '' '' \<notin> set s"
    using that salinity_string [of s] by (simp add: before_space_whole)
  show "salinity_value (JNum n) = (if isNaN n then Fin 0 else n)"
    by (cases n) (simp_all add: salinity_value_def or_zero_def before_space_def parse_eval)
  show "salinity_value v = Fin 0" if "\<not> truthy v"
    using that by (rule salinity_falsy)
  show "point_salinity (to_point m f) = salinity_value (float_salinity f)"
    by (simp add: to_point_def Let_def)
qed

theorem salinity_parsing_witness:
  "CHR '' '' \<notin> set ''35.5'' \<and> salinity_value (JStr (''35.5'' @ CHR '' '' # ''PSU 7'')) = Fin 35.5
   \<and> ''12.25'' \<noteq> [] \<and> CHR '' '' \<notin> set ''12.25'' \<and> salinity_value (JStr ''12.25'') = Fin 12.25
   \<and> \<not> truthy (JStr []) \<and> salinity_value (JStr []) = Fin 0"
  using salinity_parsing [where p = "''35.5''" and rest = "''PSU 7''" and s = "''12.25''"
      and v = "JStr []"]
  by (simp add: parse_eval)

lemma kept_not_nan:
  assumes "float_filter (Some f)"
  shows "\<not> isNaN (point_lat (to_point m f)) \<and> \<not> isNaN (point_lng (to_point m f))"
  using assms by (auto simp: float_filter_def to_point_def Let_def split: if_splits)

lemma point_filter_kept:
  "float_filter (Some f) \<Longrightarrow> point_filter (to_point m f) \<longleftrightarrow> \<not> isNaN (point_value (to_point m f))"
  using kept_not_nan [of f m] by (simp add: point_filter_def)

lemma kept_set: "f \<in> set [f. Some f \<leftarrow> filter float_filter fs] \<Longrightarrow> float_filter (Some f)"
  by (auto split: option.splits)

text \<open>
  Claim C3, as the code has it. For every record the coordinate and region filters keep,
  the value of its heat point is its temp when the active mode is temperature and its
  salinity otherwise, and the heat points left out of the list are exactly those whose value
  is \<open>NaN\<close>. A value that is infinite stays in the list.
\<close>

theorem heat_value_by_mode:
  "(float_filter (Some f) \<longrightarrow>
      point_value (to_point m f) =
        (if m = Some Temperature then point_temp (to_point m f) else point_salinity (to_point m f)))
   \<and> heatmapData m fs =
       filter (\<lambda>p. \<not> isNaN (point_value p))
         (map (to_point m) [f. Some f \<leftarrow> filter float_filter fs])"
proof
  show "float_filter (Some f) \<longrightarrow>
      point_value (to_point m f) =
        (if m = Some Temperature then point_temp (to_point m f) else point_salinity (to_point m f))"
    by (simp add: to_point_def Let_def)
  have "filter point_filter (map (to_point m) ks) = filter (\<lambda>p. \<not> isNaN (point_value p)) (map (to_point m) ks)"
    if "\<forall>k \<in> set ks. float_filter (Some k)" for ks
    using that by (induction ks) (simp_all add: point_filter_kept)
  then show "heatmapData m fs =
       filter (\<lambda>p. \<not> isNaN (point_value p))
         (map (to_point m) [f. Some f \<leftarrow> filter float_filter fs])"
    unfolding heatmapData_unfold using kept_set by blast
qed

theorem heat_value_by_mode_witness:
  "float_filter (Some \<lparr>float_lat = JNum (Fin 10), float_lng = JNum (Fin 50),
                        float_temp = JStr ''warm'', float_salinity = JStr ''35 PSU''\<rparr>)
   \<and> point_value (to_point (Some Salinity)
        \<lparr>float_lat = JNum (Fin 10), float_lng = JNum (Fin 50),
         float_temp = JStr ''warm'', float_salinity = JStr ''35 PSU''\<rparr>) = Fin 35
   \<and> heatmapData (Some Temperature)
        [Some \<lparr>float_lat = JNum (Fin 10), float_lng = JNum (Fin 50),
               float_temp = JStr ''warm'', float_salinity = JStr ''35 PSU''\<rparr>] = []"
  using heat_value_by_mode
    [of "\<lparr>float_lat = JNum (Fin 10), float_lng = JNum (Fin 50),
          float_temp = JStr ''warm'', float_salinity = JStr ''35 PSU''\<rparr>"
        "Some Temperature"
        "[Some \<lparr>float_lat = JNum (Fin 10), float_lng = JNum (Fin 50),
                float_temp = JStr ''warm'', float_salinity = JStr ''35 PSU''\<rparr>]"]
  by (simp add: float_filter_def to_point_def temp_value_def salinity_value_def
        or_zero_def before_space_def js_gt_def js_ge_def parse_eval Let_def)

text \<open>
  Claim C3 as it is stated fails: a record inside the region whose temp reads as
  \<open>Infinity\<close> gives, in temperature mode, a heat point whose value is not finite, and the
  point is in the list.
\<close>

theorem infinite_value_kept:
  "heatmapData (Some Temperature)
     [Some \<lparr>float_lat = JNum (Fin 10), float_lng = JNum (Fin 50),
            float_temp = JStr ''Infinity'', float_salinity = JStr ''35 PSU''\<rparr>]
   = [\<lparr>point_lat = Fin 10, point_lng = Fin 50, point_temp = PosInf,
       point_salinity = Fin 35, point_value = PosInf\<rparr>]"
  by (simp add: heatmapData_def float_filter_def to_point_def temp_value_def salinity_value_def
        or_zero_def before_space_def point_filter_def js_gt_def js_ge_def parse_eval Let_def)

section \<open>Properties of the nearest-point lookup\<close>















lemma empty_set_keeps_clicked_point:
  "handleMapClick activeHeatmap has_map [] c prev = prev"
  by (simp add: handleMapClick_def split: option.splits)

section \<open>Properties of the depth profile generator\<close>











section \<open>Properties of the chat session\<close>

lemma ask_try_fails: "request_fails res \<Longrightarrow> \<exists>e. ask_try clk res = Inl e"
  by (cases res) (auto simp: request_fails_def ask_try_def response_ok_def)

text \<open>
  Claim C9. For every send of a message (the input is not blank) whose request to \<open>/ask\<close>
  fails, by a network error or by a status outside 200 to 299, the conversation grows by the
  user's message, unchanged, followed by exactly one message of the bot flagged \<open>isError\<close>
  with the retry-later text, and the loading flag is cleared.
\<close>

theorem failed_ask_appends_one_error:
  assumes sent: "js_trim (inputValue st) \<noteq> []" and fails: "request_fails res"
  shows "messages (handleSendMessage clk res st)
           = messages st @ [userMessage clk (js_trim (inputValue st)), errorMessage clk]
       \<and> msg_sender (errorMessage clk) = Bot
       \<and> msg_isError (errorMessage clk)
       \<and> msg_text (errorMessage clk)
           = JStr ''Sorry, I encountered an error processing your request. Please try again later.''
       \<and> \<not> isLoading (handleSendMessage clk res st)"
proof -
  from ask_try_fails [OF fails] obtain e where e: "ask_try clk res = Inl e" ..
  show ?thesis
    using sent by (simp add: handleSendMessage_def Let_def e errorMessage_def)
qed

theorem failed_ask_appends_one_error_witness:
  "js_trim ''  hello '' = ''hello''
   \<and> request_fails (Response 500 InvalidJson)
   \<and> handleSendMessage
        \<lparr>now_sent = 1000, iso_sent = ''t1'', now_replied = 1200, iso_replied = ''t2''\<rparr>
        (Response 500 InvalidJson)
        \<lparr>messages = [], inputValue = ''  hello '', isLoading = False\<rparr>
     = \<lparr>messages =
          [\<lparr>msg_id = 1000, msg_text = JStr ''hello'', msg_sender = User, msg_timestamp = ''t1'',
            msg_isError = False, msg_data = JUndefined\<rparr>,
           \<lparr>msg_id = 1201,
            msg_text = JStr ''Sorry, I encountered an error processing your request. Please try again later.'',
            msg_sender = Bot, msg_timestamp = ''t2'', msg_isError = True, msg_data = JUndefined\<rparr>],
        inputValue = [], isLoading = False\<rparr>"
  using failed_ask_appends_one_error
    [of "\<lparr>messages = [], inputValue = ''  hello '', isLoading = False\<rparr>"
        "Response 500 InvalidJson"
        "\<lparr>now_sent = 1000, iso_sent = ''t1'', now_replied = 1200, iso_replied = ''t2''\<rparr>"]
  by (simp add: js_trim_def is_ws_def request_fails_def handleSendMessage_def Let_def
        ask_try_def response_ok_def errorMessage_def userMessage_def)

section \<open>Properties of the plain-text formatter\<close>

lemma counts_Nil: "0 < lo \<Longrightarrow> counts lo hi greedy 0 = []"
  by (cases hi) (simp_all add: counts_def)

lemma matches_required:
  assumes "Rep c lo hi greedy \<in> set r" "0 < lo" "\<forall>x \<in> set s. \<not> c x"
  shows "matches r prev s = []"
  using assms
proof (induction r arbitrary: prev s)
  case Nil
  then show ?case by simp
next
  case (Cons item r)
  have tail: "matches r p (drop k s) = []" if "Rep c lo hi greedy \<in> set r" for p k
    using Cons.IH [OF that Cons.prems(2)] Cons.prems(3) by (meson in_set_dropD)
  show ?case
  proof (cases "item = Rep c lo hi greedy")
    case True
    have "takeWhile c s = []"
      using Cons.prems(3) by (cases s) simp_all
    then show ?thesis
      using True Cons.prems(2) by (simp add: counts_Nil)
  next
    case False
    with Cons.prems(1) have in_r: "Rep c lo hi greedy \<in> set r" by simp
    have here: "matches r p s = []" for p
      using tail [OF in_r, of p 0] by simp
    show ?thesis
    proof (cases item)
      case (Rep c' lo' hi' g')
      then show ?thesis by (simp add: tail [OF in_r])
    next
      case (Grp alts)
      then show ?thesis by (simp add: tail [OF in_r])
    next
      case (Bol m)
      then show ?thesis by (simp add: here)
    next
      case (Eol m)
      then show ?thesis by (simp add: here)
    qed
  qed
qed

lemma replace_all_unmatched:
  assumes "Rep c lo hi greedy \<in> set r" "0 < lo" "\<forall>x \<in> set s. \<not> c x"
  shows "replace_all r f prev s = s"
  using assms(3)
proof (induction s arbitrary: prev)
  case Nil
  have "first_match r prev [] = None"
    using matches_required [OF assms(1,2), of "[]" prev] by (simp add: first_match_def)
  then show ?case by (subst replace_all.simps) simp
next
  case (Cons x xs)
  have "first_match r prev (x # xs) = None"
    using matches_required [OF assms(1,2) Cons.prems, of prev] by (simp add: first_match_def)
  moreover have "replace_all r f (Some x) xs = xs"
    using Cons by simp
  ultimately show ?case by (subst replace_all.simps) simp
qed


lemma const_text_apply: "const_text t whole caps = t"
  by (simp add: const_text_def)

lemma counts_greedy: "lo \<le> n \<Longrightarrow> counts lo None True n = n # rev [lo..<n]"
  by (simp add: counts_def)

lemma first_match_no_ws:
  "takeWhile is_ws s = [] \<Longrightarrow> first_match [Rep is_ws 1 None True] prev s = None"
  by (simp add: first_match_def counts_Nil)

lemma first_match_ws:
  assumes "takeWhile is_ws s \<noteq> []"
  shows "first_match [Rep is_ws 1 None True] prev s = Some (length (takeWhile is_ws s), [])"
proof -
  from assms have "1 \<le> length (takeWhile is_ws s)"
    by (simp add: Suc_leI)
  from counts_greedy [OF this] show ?thesis
    by (simp add: first_match_def)
qed

lemma replace_all_ws_run_gen:
  "replace_all [Rep is_ws 1 None True] (\<lambda>whole caps. '' '') prev s = squeeze s"
proof (induction s arbitrary: prev rule: squeeze.induct)
  case 1
  show ?case
    by (subst replace_all.simps) (simp add: first_match_no_ws del: One_nat_def)
next
  case (2 c cs)
  show ?case
  proof (cases "is_ws c")
    case True
    then have run: "takeWhile is_ws (c # cs) = c # takeWhile is_ws cs" by simp
    have "first_match [Rep is_ws 1 None True] prev (c # cs)
            = Some (Suc (length (takeWhile is_ws cs)), [])"
      using first_match_ws [of "c # cs" prev] run by simp
    moreover have "drop (length (takeWhile is_ws cs)) cs = dropWhile is_ws cs"
      by (simp add: dropWhile_eq_drop)
    ultimately show ?thesis
      using True "2.IH"(1)
      by (subst replace_all.simps) (simp del: One_nat_def)
  next
    case False
    then have "first_match [Rep is_ws 1 None True] prev (c # cs) = None"
      using first_match_no_ws [of "c # cs" prev] by simp
    with False "2.IH"(2) show ?thesis
      by (subst replace_all.simps) (simp del: One_nat_def)
  qed
qed

lemma replace_all_ws_run:
  "replace_all [Rep is_ws 1 None True] (const_text '' '') prev s = squeeze s"
proof -
  have "const_text '' '' = (\<lambda>whole caps. '' '')"
    by (rule ext)+ (rule const_text_apply)
  then show ?thesis
    by (simp only: replace_all_ws_run_gen)
qed

lemma set_squeeze: "set (squeeze s) \<subseteq> insert (CHR '' '') (set s)"
proof (induction s rule: squeeze.induct)
  case 1
  show ?case by simp
next
  case (2 c cs)
  have "set (dropWhile is_ws cs) \<subseteq> set cs"
    by (simp add: set_dropWhileD subsetI)
  with 2 show ?case by (cases "is_ws c") auto
qed

lemma set_js_trim: "set (js_trim s) \<subseteq> set s"
proof -
  have "set (js_trim s) = set (dropWhile is_ws (rev (dropWhile is_ws s)))"
    by (simp add: js_trim_def)
  also have "\<dots> \<subseteq> set (rev (dropWhile is_ws s))"
    by (meson set_dropWhileD subsetI)
  also have "\<dots> \<subseteq> set s"
    by (simp add: set_dropWhileD subsetI)
  finally show ?thesis .
qed

lemma squeeze_head: "squeeze (dropWhile is_ws cs) = d # r \<Longrightarrow> \<not> is_ws d"
proof (cases "dropWhile is_ws cs")
  case Nil
  then show "squeeze (dropWhile is_ws cs) = d # r \<Longrightarrow> \<not> is_ws d" by simp
next
  case (Cons x xs)
  then have "\<not> is_ws x"
    by (metis hd_dropWhile list.sel(1) list.distinct(1))
  with Cons show "squeeze (dropWhile is_ws cs) = d # r \<Longrightarrow> \<not> is_ws d" by auto
qed

lemma neat_squeeze: "neat (squeeze s)"
proof (induction s rule: squeeze.induct)
  case 1
  show ?case by simp
next
  case (2 c cs)
  show ?case
  proof (cases "is_ws c")
    case True
    with 2 have ih: "neat (squeeze (dropWhile is_ws cs))" by simp
    show ?thesis
    proof (cases "squeeze (dropWhile is_ws cs)")
      case Nil
      with True show ?thesis by simp
    next
      case (Cons d r)
      with squeeze_head [OF Cons] ih True show ?thesis by simp
    qed
  next
    case False
    with 2 have ih: "neat (squeeze cs)" by simp
    with False show ?thesis by (cases "squeeze cs") simp_all
  qed
qed

lemma squeeze_neat: "neat t \<Longrightarrow> squeeze t = t"
proof (induction t rule: neat.induct)
  case 1
  show ?case by simp
next
  case (2 c)
  then show ?case by simp
next
  case (3 c d r)
  then show ?case by (cases "is_ws c") simp_all
qed

lemma neat_append: "neat (xs @ ys) \<Longrightarrow> neat xs \<and> neat ys"
proof (induction xs rule: neat.induct)
  case 1
  then show ?case by simp
next
  case (2 c)
  then show ?case by (cases ys) simp_all
next
  case (3 c d r)
  then show ?case by simp
qed

lemma js_trim_split: "\<exists>a b. t = a @ js_trim t @ b"
proof -
  let ?u = "dropWhile is_ws t"
  have "t = takeWhile is_ws t @ ?u" by simp
  moreover have "rev ?u = takeWhile is_ws (rev ?u) @ dropWhile is_ws (rev ?u)" by simp
  then have "?u = rev (dropWhile is_ws (rev ?u)) @ rev (takeWhile is_ws (rev ?u))"
    by (metis rev_append rev_rev_ident)
  ultimately have "t = takeWhile is_ws t @ js_trim t @ rev (takeWhile is_ws (rev ?u))"
    by (simp add: js_trim_def)
  then show ?thesis by blast
qed

lemma neat_js_trim: "neat t \<Longrightarrow> neat (js_trim t)"
  using js_trim_split [of t] neat_append by metis

lemma dropWhile_rev_fixed:
  assumes "v = [] \<or> \<not> is_ws (hd v)"
  shows "dropWhile is_ws (rev (dropWhile is_ws (rev v))) = rev (dropWhile is_ws (rev v))"
proof (cases "rev (dropWhile is_ws (rev v))")
  case Nil
  show ?thesis by (simp only: Nil dropWhile.simps)
next
  case (Cons x xs)
  have "rev v = takeWhile is_ws (rev v) @ dropWhile is_ws (rev v)" by simp
  then have "v = rev (dropWhile is_ws (rev v)) @ rev (takeWhile is_ws (rev v))"
    by (metis rev_append rev_rev_ident)
  with Cons have "v = x # xs @ rev (takeWhile is_ws (rev v))" by simp
  then have "v \<noteq> []" "hd v = x" by (metis list.distinct(1), metis list.sel(1))
  with assms have "\<not> is_ws x" by simp
  with Cons show ?thesis by simp
qed

lemma js_trim_idem: "js_trim (js_trim t) = js_trim t"
proof -
  let ?v = "dropWhile is_ws t"
  have v: "?v = [] \<or> \<not> is_ws (hd ?v)"
    by (metis hd_dropWhile)
  have "dropWhile is_ws (js_trim t) = js_trim t"
    unfolding js_trim_def using dropWhile_rev_fixed [OF v] .
  then show ?thesis
    by (simp add: js_trim_def)
qed

lemma tidy_fixed: "js_trim (squeeze (js_trim (squeeze s))) = js_trim (squeeze s)"
proof -
  have "neat (js_trim (squeeze s))"
    by (rule neat_js_trim) (rule neat_squeeze)
  then have "squeeze (js_trim (squeeze s)) = js_trim (squeeze s)"
    by (rule squeeze_neat)
  then show ?thesis by (simp add: js_trim_idem)
qed


lemma replace_all_without_char:
  assumes "chr a \<in> set r" "a \<notin> set s"
  shows "replace_all r f prev s = s"
proof (rule replace_all_unmatched)
  show "Rep (\<lambda>c. c = a) 1 (Some 1) True \<in> set r"
    using assms(1) by (simp add: chr_def)
  show "\<forall>x \<in> set s. \<not> x = a"
    using assms(2) by blast
qed simp

lemma no_pair_nth:
  "no_pair P Q s \<Longrightarrow> Suc i < length s \<Longrightarrow> \<not> (P (s ! i) \<and> Q (s ! Suc i))"
proof (induction P Q s arbitrary: i rule: no_pair.induct)
  case (1 P Q a b r)
  then show ?case by (cases i) simp_all
qed simp_all

lemma no_pair_tl: "no_pair P Q (a # s) \<Longrightarrow> no_pair P Q s"
  by (cases s) simp_all

lemma no_pair_drop: "no_pair P Q s \<Longrightarrow> no_pair P Q (drop k s)"
proof (induction k arbitrary: s)
  case 0
  then show ?case by simp
next
  case (Suc k)
  then show ?case by (cases s) (simp_all add: no_pair_tl)
qed

lemma counts_bounds:
  "k \<in> set (counts lo hi greedy n) \<Longrightarrow> lo \<le> k \<and> k \<le> n"
  by (auto simp: counts_def Let_def split: option.splits if_splits)

lemma takeWhile_nth_holds: "i < length (takeWhile P s) \<Longrightarrow> P (s ! i)"
  by (metis nth_mem set_takeWhileD takeWhile_nth)

text \<open>A class taken at least once and then one character that never follows the class.\<close>

lemma matches_pair:
  assumes "no_pair c (\<lambda>y. y = x) s" "0 < lo"
  shows "matches (Rep c lo hi greedy # chr x # r) prev s = []"
proof -
  have "matches (chr x # r) p (drop k s) = []"
    if k: "k \<in> set (counts lo hi greedy (length (takeWhile c s)))" for k p
  proof -
    from counts_bounds [OF k] assms(2) have k1: "0 < k" and k2: "k \<le> length (takeWhile c s)"
      by simp_all
    then have "k - 1 < length (takeWhile c s)" by simp
    then have before: "c (s ! (k - 1))"
      by (rule takeWhile_nth_holds)
    have "takeWhile (\<lambda>y. y = x) (drop k s) = []"
    proof (cases "k < length s")
      case True
      with no_pair_nth [OF assms(1), of "k - 1"] before k1 have "s ! k \<noteq> x" by auto
      moreover from True have "drop k s = s ! k # drop (Suc k) s"
        by (simp add: Cons_nth_drop_Suc)
      ultimately show ?thesis by simp
    next
      case False
      then show ?thesis by simp
    qed
    then show ?thesis by (simp add: chr_def counts_Nil)
  qed
  then show ?thesis by simp
qed

lemma dead_Cons: "dead r s \<Longrightarrow> dead (item # r) s"
proof -
  assume d: "dead r s"
  have tail: "matches r p (drop j (drop k s)) = []" for p j k
    using d by (simp add: dead_def)
  have here: "matches r p (drop k s) = []" for p k
    using d by (simp add: dead_def)
  show ?thesis
    unfolding dead_def
  proof (intro allI)
    fix p k
    show "matches (item # r) p (drop k s) = []"
      by (cases item) (simp_all add: tail here del: drop_drop)
  qed
qed

lemma dead_pair:
  "no_pair c (\<lambda>y. y = x) s \<Longrightarrow> 0 < lo \<Longrightarrow> dead (Rep c lo hi greedy # chr x # r) s"
  unfolding dead_def using matches_pair [OF no_pair_drop] by blast

lemma dead_short_run:
  assumes "no_pair c c s" "2 \<le> lo"
  shows "dead (Rep c lo hi greedy # r) s"
proof -
  have short: "length (takeWhile c t) \<le> 1" if "no_pair c c t" for t
  proof (cases t)
    case Nil
    then show ?thesis by simp
  next
    case (Cons a u)
    with that show ?thesis by (cases u) auto
  qed
  have "counts lo hi greedy (length (takeWhile c (drop k s))) = []" for k
    using short [OF no_pair_drop [OF assms(1), of k]] assms(2)
    by (auto simp: counts_def Let_def split: option.splits)
  then show ?thesis by (simp add: dead_def)
qed

lemma dead_required:
  "Rep c lo hi greedy \<in> set r \<Longrightarrow> 0 < lo \<Longrightarrow> \<forall>x \<in> set s. \<not> c x \<Longrightarrow> dead r s"
  unfolding dead_def by (meson in_set_dropD matches_required)

lemma replace_all_dead:
  assumes "dead r s"
  shows "replace_all r f prev s = s"
proof -
  have "replace_all r f prev (drop k s) = drop k s" for k
  proof (induction "length s - k" arbitrary: k prev)
    case 0
    then have "drop k s = []" by simp
    moreover have "first_match r prev [] = None"
      using assms calculation by (metis dead_def first_match_def list.simps(4))
    ultimately show ?case by (subst replace_all.simps) simp
  next
    case (Suc m)
    then have k: "k < length s" by simp
    then have split: "drop k s = s ! k # drop (Suc k) s"
      by (simp add: Cons_nth_drop_Suc)
    have "first_match r prev (drop k s) = None"
      using assms by (simp add: dead_def first_match_def)
    moreover have "replace_all r f (Some (s ! k)) (drop (Suc k) s) = drop (Suc k) s"
      using Suc by simp
    ultimately show ?case
      by (subst replace_all.simps) (simp add: split)
  qed
  from this [of 0] show ?thesis by simp
qed

text \<open>What a capture holds is part of the text.\<close>

lemma matches_captures:
  "(n, caps) \<in> set (matches r prev s) \<Longrightarrow> u \<in> set caps \<Longrightarrow> set u \<subseteq> set s"
proof (induction r prev s arbitrary: n caps rule: matches.induct)
  case (1 prev s)
  then show ?case by simp
next
  case (2 c lo hi greedy r prev s)
  from "2.prems"(1) obtain k m where k: "k \<in> set (counts lo hi greedy (length (takeWhile c s)))"
    and m: "(m, caps) \<in> set (matches r (prev_after prev (take k s)) (drop k s))"
    by auto
  from "2.IH" [OF k m "2.prems"(2)] have "set u \<subseteq> set (drop k s)" .
  then show ?case using set_drop_subset by fastforce
next
  case (3 alts r prev s)
  from "3.prems"(1) obtain alt n1 caps1 n2 caps2 where alt: "alt \<in> set alts"
    and m1: "(n1, caps1) \<in> set (matches alt prev s)"
    and m2: "(n2, caps2) \<in> set (matches r (prev_after prev (take n1 s)) (drop n1 s))"
    and caps: "caps = take n1 s # caps1 @ caps2"
    by auto
  from "3.prems"(2) caps consider "u = take n1 s" | "u \<in> set caps1" | "u \<in> set caps2" by auto
  then show ?case
  proof cases
    case 1
    then show ?thesis by (simp add: set_take_subset)
  next
    case 2
    from "3.IH"(1) [OF alt m1 2] show ?thesis .
  next
    case 3
    from "3.IH"(2) [OF alt _ _ m2 3, of "(n1, caps1)" caps1] m1 have "set u \<subseteq> set (drop n1 s)"
      by simp
    then show ?thesis using set_drop_subset by fastforce
  qed
next
  case (4 multiline r prev s)
  then show ?case by (auto split: if_splits)
next
  case (5 multiline r prev s)
  then show ?case by (auto split: if_splits)
qed

lemma first_match_in_matches:
  "first_match r prev s = Some m \<Longrightarrow> m \<in> set (matches r prev s)"
  by (auto simp: first_match_def split: list.splits)

lemma first_match_found: "matches r prev s \<noteq> [] \<Longrightarrow> first_match r prev s \<noteq> None"
  by (auto simp: first_match_def split: list.splits)

text \<open>A character that is not in the text and not in a replacement is not in the result.\<close>

lemma replace_all_avoids:
  assumes f: "\<And>w caps. (\<forall>u \<in> set caps. x \<notin> set u) \<Longrightarrow> x \<notin> set (f w caps)"
  shows "x \<notin> set s \<Longrightarrow> x \<notin> set (replace_all r f prev s)"
proof (induction "length s" arbitrary: s prev rule: less_induct)
  case less
  have rest: "x \<notin> set (case s of [] \<Rightarrow> [] | a # t \<Rightarrow> a # replace_all r f (Some a) t)"
  proof (cases s)
    case Nil
    then show ?thesis by simp
  next
    case (Cons a t)
    with less.prems have "x \<notin> set t" "a \<noteq> x" by auto
    with less.hyps [of t "Some a"] Cons show ?thesis by simp
  qed
  show ?case
  proof (cases "first_match r prev s")
    case None
    with rest show ?thesis by (subst replace_all.simps) simp
  next
    case (Some m)
    obtain n caps where m: "m = (n, caps)" by (cases m)
    have "\<forall>u \<in> set caps. x \<notin> set u"
      using matches_captures [of n caps r prev s] first_match_in_matches [OF Some] m less.prems
      by blast
    then have out: "x \<notin> set (f (take n s) caps)" by (rule f)
    show ?thesis
    proof (cases "n = 0")
      case True
      with rest out Some m show ?thesis by (subst replace_all.simps) simp
    next
      case False
      have "n \<le> length s"
        using first_match_length [of r prev s n caps] Some m by simp
      with False have "length (drop n s) < length s" by simp
      moreover have "x \<notin> set (drop n s)"
        using less.prems by (meson in_set_dropD)
      ultimately have "x \<notin> set (replace_all r f (prev_after prev (take n s)) (drop n s))"
        by (rule less.hyps)
      with out Some m False show ?thesis by (subst replace_all.simps) simp
    qed
  qed
qed

lemma avoid_const:
  "x \<notin> set t \<Longrightarrow> x \<notin> set s \<Longrightarrow> x \<notin> set (replace_all r (const_text t) prev s)"
  by (rule replace_all_avoids) (simp_all add: const_text_def)

lemma avoid_capture: "x \<notin> set s \<Longrightarrow> x \<notin> set (replace_all r first_capture prev s)"
  by (rule replace_all_avoids) (auto simp: first_capture_def capture_def)

lemma avoid_trim: "x \<notin> set s \<Longrightarrow> x \<notin> set (js_trim s)"
  using set_js_trim [of s] by blast

text \<open>A match is as long as a class of the expression asks for.\<close>

lemma matches_at_least:
  assumes "Rep c lo hi greedy \<in> set r" "(n, caps) \<in> set (matches r prev s)"
  shows "lo \<le> n"
  using assms
proof (induction r arbitrary: prev s n caps)
  case Nil
  then show ?case by simp
next
  case (Cons item r)
  show ?case
  proof (cases item)
    case (Rep c' lo' hi' g')
    from Cons.prems(2) Rep obtain k m
      where k: "k \<in> set (counts lo' hi' g' (length (takeWhile c' s)))"
        and m: "(m, caps) \<in> set (matches r (prev_after prev (take k s)) (drop k s))"
        and n: "n = k + m"
      by auto
    show ?thesis
    proof (cases "item = Rep c lo hi greedy")
      case True
      with Rep counts_bounds [OF k] n show ?thesis by simp
    next
      case False
      with Cons.prems(1) have "Rep c lo hi greedy \<in> set r" by simp
      from Cons.IH [OF this m] n show ?thesis by simp
    qed
  next
    case (Grp alts)
    with Cons.prems(1) have in_r: "Rep c lo hi greedy \<in> set r" by simp
    from Cons.prems(2) Grp obtain n1 n2 caps2 p
      where "(n2, caps2) \<in> set (matches r p (drop n1 s))" "n = n1 + n2"
      by auto
    with Cons.IH [OF in_r] show ?thesis by fastforce
  next
    case (Bol m)
    with Cons.prems(1) have in_r: "Rep c lo hi greedy \<in> set r" by simp
    from Cons.prems(2) Bol have "(n, caps) \<in> set (matches r prev s)"
      by (auto split: if_splits)
    with Cons.IH [OF in_r] show ?thesis by blast
  next
    case (Eol m)
    with Cons.prems(1) have in_r: "Rep c lo hi greedy \<in> set r" by simp
    from Cons.prems(2) Eol have "(n, caps) \<in> set (matches r prev s)"
      by (auto split: if_splits)
    with Cons.IH [OF in_r] show ?thesis by blast
  qed
qed

text \<open>
  An expression that matches wherever the character \<open>x\<close> stands, never the empty text, and
  whose matches are deleted: no \<open>x\<close> is left.
\<close>

lemma replace_all_strips:
  assumes hit: "\<And>prev t. matches r prev (x # t) \<noteq> []"
    and req: "Rep c lo hi greedy \<in> set r" "0 < lo"
  shows "x \<notin> set (replace_all r (const_text []) prev s)"
proof (induction "length s" arbitrary: s prev rule: less_induct)
  case less
  show ?case
  proof (cases "first_match r prev s")
    case None
    show ?thesis
    proof (cases s)
      case Nil
      with None show ?thesis by (subst replace_all.simps) simp
    next
      case (Cons a t)
      have "a \<noteq> x"
        using None Cons first_match_found [OF hit, of prev t] by auto
      moreover have "x \<notin> set (replace_all r (const_text []) (Some a) t)"
        using less.hyps [of t "Some a"] Cons by simp
      ultimately show ?thesis
        using None Cons by (subst replace_all.simps) simp
    qed
  next
    case (Some m)
    obtain n caps where m: "m = (n, caps)" by (cases m)
    have "lo \<le> n"
      using matches_at_least [OF req(1)] first_match_in_matches [OF Some] m by blast
    with req(2) have pos: "n \<noteq> 0" by simp
    have "n \<le> length s"
      using first_match_length [of r prev s n caps] Some m by simp
    with pos have "length (drop n s) < length s" by simp
    then have "x \<notin> set (replace_all r (const_text []) (prev_after prev (take n s)) (drop n s))"
      by (rule less.hyps)
    with Some m pos show ?thesis
      by (subst replace_all.simps) (simp add: const_text_def)
  qed
qed

lemma matches_step:
  assumes "k \<in> set (counts lo hi greedy (length (takeWhile c s)))"
    and "matches r (prev_after prev (take k s)) (drop k s) \<noteq> []"
  shows "matches (Rep c lo hi greedy # r) prev s \<noteq> []"
  using assms by auto

lemma counts_zero: "0 \<in> set (counts 0 hi greedy n)"
  by (auto simp: counts_def Let_def split: option.splits)

lemma counts_one:
  assumes "hi \<noteq> Some 0"
  shows "1 \<in> set (counts 1 hi greedy (Suc n))"
proof -
  have "1 \<le> (case hi of None \<Rightarrow> Suc n | Some h \<Rightarrow> min h (Suc n))"
    using assms by (cases hi) simp_all
  then show ?thesis
    by (auto simp: counts_def Let_def)
qed

lemma matches_ws_star: "matches [ws_star] prev s \<noteq> []"
  unfolding ws_star_def by (rule matches_step [where k = 0]) (simp_all add: counts_zero)

lemma matches_marker:
  assumes "c x" "hi \<noteq> Some 0"
  shows "matches [ws_star, Rep c 1 hi greedy, ws_star] prev (x # t) \<noteq> []"
proof -
  have inner: "matches [Rep c 1 hi greedy, ws_star] prev (x # t) \<noteq> []"
  proof (rule matches_step [where k = 1])
    have "length (takeWhile c (x # t)) = Suc (length (takeWhile c t))"
      using assms(1) by simp
    then show "1 \<in> set (counts 1 hi greedy (length (takeWhile c (x # t))))"
      using counts_one [OF assms(2)] by simp
    show "matches [ws_star] (prev_after prev (take 1 (x # t))) (drop 1 (x # t)) \<noteq> []"
      by (rule matches_ws_star)
  qed
  have "matches (Rep is_ws 0 None True # [Rep c 1 hi greedy, ws_star]) prev (x # t) \<noteq> []"
  proof (rule matches_step [where k = 0])
    show "0 \<in> set (counts 0 None True (length (takeWhile is_ws (x # t))))"
      by (rule counts_zero)
    show "matches [Rep c 1 hi greedy, ws_star] (prev_after prev (take 0 (x # t))) (drop 0 (x # t))
            \<noteq> []"
      using inner by (simp add: prev_after_def del: matches.simps)
  qed
  then show ?thesis
    by (simp add: ws_star_def del: matches.simps)
qed

lemma matches_tag:
  "matches [chr CHR ''<'', Rep (\<lambda>c. c \<noteq> CHR ''>'') 0 None True,
            Rep (\<lambda>c. c = CHR ''>'') 0 (Some 1) True] prev (CHR ''<'' # t) \<noteq> []"
  unfolding chr_def
proof (rule matches_step [where k = 1])
  show "1 \<in> set (counts 1 (Some 1) True (length (takeWhile (\<lambda>c. c = CHR ''<'') (CHR ''<'' # t))))"
    using counts_one [of "Some 1" True] by simp
  show "matches [Rep (\<lambda>c. c \<noteq> CHR ''>'') 0 None True, Rep (\<lambda>c. c = CHR ''>'') 0 (Some 1) True]
          (prev_after prev (take 1 (CHR ''<'' # t))) (drop 1 (CHR ''<'' # t)) \<noteq> []"
    by (intro matches_step [where k = 0] counts_zero) simp
qed

lemma strip_tag:
  "CHR ''<'' \<notin> set (replace_all [chr CHR ''<'', Rep (\<lambda>c. c \<noteq> CHR ''>'') 0 None True,
                    Rep (\<lambda>c. c = CHR ''>'') 0 (Some 1) True] (const_text []) prev s)"
proof (rule replace_all_strips [where c = "\<lambda>c. c = CHR ''<''" and lo = 1 and hi = "Some 1" and greedy = True])
  show "matches [chr CHR ''<'', Rep (\<lambda>c. c \<noteq> CHR ''>'') 0 None True,
            Rep (\<lambda>c. c = CHR ''>'') 0 (Some 1) True] p (CHR ''<'' # t) \<noteq> []" for p t
    by (rule matches_tag)
  show "Rep (\<lambda>c. c = CHR ''<'') 1 (Some 1) True
          \<in> set [chr CHR ''<'', Rep (\<lambda>c. c \<noteq> CHR ''>'') 0 None True,
                 Rep (\<lambda>c. c = CHR ''>'') 0 (Some 1) True]"
    by (simp add: chr_def)
qed simp

lemma strip_marker:
  assumes "c x" "hi \<noteq> Some 0"
  shows "x \<notin> set (replace_all [ws_star, Rep c 1 hi greedy, ws_star] (const_text []) prev s)"
proof (rule replace_all_strips [where c = c and lo = 1 and hi = hi and greedy = greedy])
  show "matches [ws_star, Rep c 1 hi greedy, ws_star] p (x # t) \<noteq> []" for p t
    using assms by (rule matches_marker)
  show "Rep c 1 hi greedy \<in> set [ws_star, Rep c 1 hi greedy, ws_star]"
    by simp
qed simp

lemma strip_char:
  "x \<notin> set (replace_all [ws_star, chr x, ws_star] (const_text []) prev s)"
  unfolding chr_def by (rule strip_marker) simp_all

text \<open>The first four passes delete every tag opener, hash, asterisk and hyphen.\<close>

lemma clean_chain_stripped:
  "CHR ''<'' \<notin> set (clean_chain s)" "CHR ''#'' \<notin> set (clean_chain s)"
  "CHR ''*'' \<notin> set (clean_chain s)" "CHR ''-'' \<notin> set (clean_chain s)"
proof -
  show "CHR ''<'' \<notin> set (clean_chain s)"
    unfolding clean_chain_def
    by (rule avoid_trim, rule avoid_const, simp, rule avoid_capture, rule avoid_capture,
        rule avoid_const, simp, rule avoid_const, simp, rule avoid_const, simp,
        rule avoid_const, simp, rule avoid_const, simp, rule avoid_const, simp,
        rule avoid_const, simp, rule strip_tag)
  show "CHR ''#'' \<notin> set (clean_chain s)"
    unfolding clean_chain_def
    by (rule avoid_trim, rule avoid_const, simp, rule avoid_capture, rule avoid_capture,
        rule avoid_const, simp, rule avoid_const, simp, rule avoid_const, simp,
        rule avoid_const, simp, rule avoid_const, simp, rule avoid_const, simp,
        rule strip_marker, simp, simp)
  show "CHR ''*'' \<notin> set (clean_chain s)"
    unfolding clean_chain_def
    by (rule avoid_trim, rule avoid_const, simp, rule avoid_capture, rule avoid_capture,
        rule avoid_const, simp, rule avoid_const, simp, rule avoid_const, simp,
        rule avoid_const, simp, rule avoid_const, simp, rule strip_char)
  show "CHR ''-'' \<notin> set (clean_chain s)"
    unfolding clean_chain_def
    by (rule avoid_trim, rule avoid_const, simp, rule avoid_capture, rule avoid_capture,
        rule avoid_const, simp, rule avoid_const, simp, rule avoid_const, simp,
        rule avoid_const, simp, rule strip_char)
qed

lemma no_pair_weaken:
  assumes "no_pair P Q s" "\<forall>a \<in> set s. P' a \<longrightarrow> P a" "\<forall>a \<in> set s. Q' a \<longrightarrow> Q a"
  shows "no_pair P' Q' s"
  using assms by (induction P Q s rule: no_pair.induct) auto

lemma neat_white_space: "neat t \<Longrightarrow> a \<in> set t \<Longrightarrow> is_ws a \<Longrightarrow> a = CHR '' ''"
  by (induction t rule: neat.induct) auto

lemma dead_chars:
  "no_pair (\<lambda>y. y = a) (\<lambda>y. y = b) s \<Longrightarrow> dead (chr a # chr b # r) s"
  using dead_pair [of "\<lambda>y. y = a" b s 1 "Some 1" True r] by (simp add: chr_def [of a])

lemma js_trim_clean_chain: "js_trim (clean_chain s) = clean_chain s"
  by (simp add: clean_chain_def js_trim_idem)

text \<open>
  On a settled and trimmed text without tag opener, hash, asterisk and hyphen no expression
  of the chain matches, but for the sixth, which puts a space for each space.
\<close>

lemma clean_chain_settled:
  assumes "settled t" "js_trim t = t"
    and "CHR ''<'' \<notin> set t" "CHR ''#'' \<notin> set t" "CHR ''*'' \<notin> set t" "CHR ''-'' \<notin> set t"
  shows "clean_chain t = t"
proof -
  from assms(1) have tick: "CHR 0x60 \<notin> set t"
    and link: "no_pair (\<lambda>c. c = CHR '']'') (\<lambda>c. c = CHR ''('') t"
    and number: "no_pair is_digit (\<lambda>c. c = CHR ''.'') t"
    and rule: "no_pair (\<lambda>c. c = CHR ''_'') (\<lambda>c. c = CHR ''_'') t"
    and neat: "neat t"
    by (auto simp: settled_def list_ex_iff)
  have e1: "replace_all [chr CHR ''<'', Rep (\<lambda>c. c \<noteq> CHR ''>'') 0 None True,
                    Rep (\<lambda>c. c = CHR ''>'') 0 (Some 1) True] f p t = t" for f p
    by (rule replace_all_without_char [where a = "CHR ''<''"]) (simp_all add: assms)
  have e2: "replace_all [ws_star, Rep (\<lambda>c. c = CHR ''#'') 1 None True, ws_star] f p t = t" for f p
    by (rule replace_all_unmatched [where c = "\<lambda>c. c = CHR ''#''" and lo = 1 and hi = None and greedy = True])
       (use assms in auto)
  have e3: "replace_all [ws_star, chr CHR ''*'', ws_star] f p t = t" for f p
    by (rule replace_all_without_char [where a = "CHR ''*''"]) (simp_all add: assms)
  have e4: "replace_all [ws_star, chr CHR ''-'', ws_star] f p t = t" for f p
    by (rule replace_all_without_char [where a = "CHR ''-''"]) (simp_all add: assms)
  have e5: "replace_all [ws_star, Rep is_digit 1 None True, chr CHR ''.'', ws_star] f p t = t" for f p
    by (intro replace_all_dead dead_Cons dead_pair number) simp
  have e6: "replace_all [Rep is_ws 1 None True] (const_text '' '') p t = t" for p
    by (simp only: replace_all_ws_run squeeze_neat [OF neat])
  have "no_pair (\<lambda>c. c \<in> set ''-*_'') (\<lambda>c. c \<in> set ''-*_'') t"
    by (rule no_pair_weaken [OF rule]) (use assms in auto)
  then have e7: "replace_all [ws_star, Rep (\<lambda>c. c \<in> set ''-*_'') 2 None True, ws_star] f p t = t"
    for f p
    by (intro replace_all_dead dead_Cons dead_short_run) simp_all
  have e8: "replace_all [ws_star, Rep (\<lambda>c. c = CHR 0x60) 3 None True, Rep (\<lambda>c. True) 0 None False,
                    Rep (\<lambda>c. c = CHR 0x60) 3 None True, ws_star] f p t = t" for f p
    by (rule replace_all_unmatched [where c = "\<lambda>c. c = CHR 0x60" and lo = 3 and hi = None and greedy = True])
       (use tick in auto)
  have e9: "replace_all [ws_star, chr (CHR 0x60), Grp [[Rep (\<lambda>c. c \<noteq> CHR 0x60) 1 None True]],
                    chr (CHR 0x60), ws_star] f p t = t" for f p
    by (rule replace_all_without_char [where a = "CHR 0x60"]) (simp_all add: tick)
  have e10: "replace_all [ws_star, chr CHR ''['', Grp [[Rep (\<lambda>c. c \<noteq> CHR '']'') 1 None True]],
                    chr CHR '']'', chr CHR ''('', Rep (\<lambda>c. c \<noteq> CHR '')'') 1 None True, chr CHR '')'',
                    ws_star] f p t = t" for f p
    by (intro replace_all_dead dead_Cons dead_chars link)
  have e11: "replace_all [ws_star, chr CHR ''!'', chr CHR ''['', Rep (\<lambda>c. c \<noteq> CHR '']'') 0 None True,
                    chr CHR '']'', chr CHR ''('', Rep (\<lambda>c. c \<noteq> CHR '')'') 1 None True, chr CHR '')'',
                    ws_star] f p t = t" for f p
    by (intro replace_all_dead dead_Cons dead_chars link)
  show ?thesis
    unfolding clean_chain_def
    by (simp only: e1 e2 e3 e4 e5 e6 e7 e8 e9 e10 e11 assms(2))
qed

text \<open>
  Claim C4, as the code has it. The formatted text \<open>cleanText(S)\<close> of every string \<open>S\<close> has
  no \<open><\<close>, \<open>#\<close>, \<open>*\<close> and \<open>-\<close>. \<open>cleanText\<close> applied to it gives the same text,
  \<open>cleanText(cleanText(S)) == cleanText(S)\<close>, whenever it is settled: it has no null
  character, no \<open>&\<close> directly before a letter, a digit or \<open>#\<close>, no backquote, no \<open>](\<close>, no
  digit directly before a full stop, no two underscores side by side, and its white space
  is single spaces. The parser of the browser is any function that gives character data
  back as it is.
\<close>

theorem cleanText_idempotent_when_settled:
  assumes "identity_on_text textContent"
  shows "\<not> list_ex (\<lambda>c. c \<in> set ''<#*-'') (cleanText textContent S)
       \<and> (settled (cleanText textContent S) \<longrightarrow>
            cleanText textContent (cleanText textContent S) = cleanText textContent S)"
proof (cases "cleanText textContent S = []")
  case True
  then show ?thesis by (simp add: cleanText_def)
next
  case False
  define T where "T = cleanText textContent S"
  from False have T: "T = clean_chain (textContent S)" "T \<noteq> []"
    by (auto simp: T_def cleanText_def split: if_splits)
  have stripped: "CHR ''<'' \<notin> set T" "CHR ''#'' \<notin> set T" "CHR ''*'' \<notin> set T" "CHR ''-'' \<notin> set T"
    unfolding T(1) by (rule clean_chain_stripped)+
  have trimmed: "js_trim T = T"
    unfolding T(1) by (rule js_trim_clean_chain)
  have "cleanText textContent T = T" if settled: "settled T"
  proof -
    have "CHR 0x0D \<notin> set T"
      using settled neat_white_space [of T "CHR 0x0D"] by (auto simp: settled_def is_ws_def)
    moreover have "CHR 0x00 \<notin> set T" "no_pair (\<lambda>c. c = CHR ''&'') reference_start T"
      using settled by (auto simp: settled_def list_ex_iff)
    ultimately have "character_data T"
      using stripped(1) by (auto simp: list_ex_iff character_data_def)
    with assms have "textContent T = T"
      by (simp add: identity_on_text_def)
    with T(2) have "cleanText textContent T = clean_chain T"
      by (simp add: cleanText_def)
    also have "\<dots> = T"
      using settled trimmed stripped by (rule clean_chain_settled)
    finally show ?thesis .
  qed
  moreover have "\<not> list_ex (\<lambda>c. c \<in> set ''<#*-'') T"
    using stripped by (auto simp: list_ex_iff)
  ultimately show ?thesis by (simp add: T_def)
qed

theorem cleanText_idempotent_when_settled_witness:
  "identity_on_text (\<lambda>s. if s = ''<b># Sea-level</b>  & tide.'' then ''# Sea-level  & tide.'' else s)
   \<and> cleanText (\<lambda>s. if s = ''<b># Sea-level</b>  & tide.'' then ''# Sea-level  & tide.'' else s)
        ''<b># Sea-level</b>  & tide.'' = ''Sealevel & tide.''
   \<and> settled ''Sealevel & tide.''
   \<and> cleanText (\<lambda>s. if s = ''<b># Sea-level</b>  & tide.'' then ''# Sea-level  & tide.'' else s)
        ''Sealevel & tide.'' = ''Sealevel & tide.''"
proof -
  let ?h = "\<lambda>s. if s = ''<b># Sea-level</b>  & tide.'' then ''# Sea-level  & tide.'' else s"
  have h: "identity_on_text ?h"
    by (auto simp: identity_on_text_def character_data_def)
  have v: "cleanText ?h ''<b># Sea-level</b>  & tide.'' = ''Sealevel & tide.''"
    by code_simp
  have s: "settled ''Sealevel & tide.''"
    by (simp add: settled_def reference_start_def is_ws_def is_digit_def)
  from cleanText_idempotent_when_settled [OF h, of "''<b># Sea-level</b>  & tide.''"] s
  have "cleanText ?h ''Sealevel & tide.'' = ''Sealevel & tide.''"
    unfolding v by simp
  with h v s show ?thesis by blast
qed

text \<open>
  Claim C4 as it is stated fails: a later \<open>replace\<close> of the chain can leave a text that an
  earlier one removes. The text \<open>"1__."\<close> is character data, which every parser gives back as
  it is. The pass removes the underscores and returns \<open>"1."\<close>; on \<open>"1."\<close> it removes the
  list number and returns the empty string.
\<close>

theorem cleanText_not_idempotent:
  "identity_on_text (\<lambda>s. s)
   \<and> cleanText (\<lambda>s. s) ''1__.'' = ''1.''
   \<and> cleanText (\<lambda>s. s) (cleanText (\<lambda>s. s) ''1__.'') = []
   \<and> \<not> (\<exists>textContent. identity_on_text textContent
          \<and> cleanText textContent (cleanText textContent ''1__.'') = cleanText textContent ''1__.'')"
proof -
  have a: "clean_chain ''1__.'' = ''1.''"
    by code_simp
  have b: "clean_chain ''1.'' = []"
    by code_simp
  have "cleanText h ''1__.'' = ''1.'' \<and> cleanText h ''1.'' = []" if "identity_on_text h" for h
  proof -
    from that have "h ''1__.'' = ''1__.''" "h ''1.'' = ''1.''"
      by (simp_all add: identity_on_text_def character_data_def)
    then show ?thesis by (simp add: cleanText_def a b)
  qed
  moreover have "identity_on_text (\<lambda>s. s)"
    by (simp add: identity_on_text_def)
  ultimately show ?thesis by fastforce
qed

text \<open>
  Each condition on the formatted text rules out results that a second pass changes: a
  backquoted word, a link, two underscores and a double space that the first pass leaves.
\<close>

lemma unsettled_results_change:
  "cleanText (\<lambda>s. s) (replicate 2 (CHR 0x60) @ ''a'' @ replicate 2 (CHR 0x60)) = CHR 0x60 # ''a'' @ [CHR 0x60]"
  "cleanText (\<lambda>s. s) (CHR 0x60 # ''a'' @ [CHR 0x60]) = ''a''"
  "cleanText (\<lambda>s. s) ''[[a](b)](c)'' = ''[a](c)''"
  "cleanText (\<lambda>s. s) ''[a](c)'' = ''a''"
  "cleanText (\<lambda>s. s) (''_'' @ CHR 0x60 # ''_'' @ [CHR 0x60]) = ''__''"
  "cleanText (\<lambda>s. s) ''__'' = []"
  "cleanText (\<lambda>s. s) (CHR 0x60 # ''a '' @ replicate 2 (CHR 0x60) @ '' b'' @ [CHR 0x60]) = ''a  b''"
  "cleanText (\<lambda>s. s) ''a  b'' = ''a b''"
  by code_simp+

section \<open>The rich-text formatter on a fenced code block\<close>

declare matches.simps [simp del]

lemmas matches_run =
  matches.simps(1)
  matches.simps(2-5) [where s = "[]"]
  matches.simps(2-5) [where s = "c # cs" for c cs]

lemmas replace_all_run =
  replace_all.simps [where s = "[]"]
  replace_all.simps [where s = "c # cs" for c cs]

lemmas replace_fold_run =
  replace_fold.simps [where s = "[]"]
  replace_fold.simps [where s = "c # cs" for c cs]

lemmas split_from_run =
  split_from.simps [where s = "[]"]
  split_from.simps [where s = "c # cs" for c cs]

lemmas rx_run = matches_run replace_all_run first_match_def counts_def
  prev_after_def chr_def ws_star_def lit_def const_text_def capture_def is_ws_def is_digit_def
  any_char_def is_line_end_def Let_def

lemma fenced_literal:
  "fenced ''a*b*c'' = CHR 0x60 # CHR 0x60 # CHR 0x60 # ''a*b*c'' @ [CHR 0x60, CHR 0x60, CHR 0x60]"
  by (simp add: fenced_def numeral_3_eq_3)

lemma fenced_not_empty: "fenced code \<noteq> []"
  by (simp add: fenced_def)

lemma step_cleaning: "initial_cleaning (fenced ''a*b*c'') = fenced ''a*b*c''"
  by (simp add: initial_cleaning_def fenced_literal js_trim_def rx_run)

lemma step_preserve: "preserve_code_blocks (fenced ''a*b*c'') = (''___CODE_BLOCK_0___'', [''a*b*c''])"
  by (simp add: preserve_code_blocks_def fenced_literal fence_def push_code_def placeholder_def
        show_nat.simps digit_char_def replace_fold_run rx_run)

lemma step_urls: "handle_urls ''___CODE_BLOCK_0___'' = ''___CODE_BLOCK_0___''"
  by (simp add: handle_urls_def url_start_def rx_run)

lemma step_split: "split_text ''___CODE_BLOCK_0___'' [CHR 0x0A, CHR 0x0A] = [''___CODE_BLOCK_0___'']"
  by (simp add: split_text_def split_from_run)

lemma step_paragraph: \<open>process_paragraph ''___CODE_BLOCK_0___'' = ''<p class="message-paragraph">___CODE_BLOCK_0___</p>''\<close>
  by (simp add: process_paragraph_def js_trim_def test_def endsWith_def rx_run)

lemma step_links: \<open>process_links ''<p class="message-paragraph">___CODE_BLOCK_0___</p>''
            = ''<p class="message-paragraph">___CODE_BLOCK_0___</p>''\<close>
  by (simp add: process_links_def rx_run)

lemma step_naked_urls: \<open>naked_urls ''<p class="message-paragraph">___CODE_BLOCK_0___</p>''
            = ''<p class="message-paragraph">___CODE_BLOCK_0___</p>''\<close>
  by (simp add: naked_urls_def url_start_def rx_run)

lemma step_restore: \<open>restore_code_blocks 0 [''a*b*c''] ''<p class="message-paragraph">___CODE_BLOCK_0___</p>''
            = ''<p class="message-paragraph"><pre class="code-block"><code>a*b*c</code></pre></p>''\<close>
  by (simp add: replace_text_def placeholder_def show_nat.simps digit_char_def)

lemma step_marks: \<open>format_marks ''<p class="message-paragraph"><pre class="code-block"><code>a*b*c</code></pre></p>''
            = ''<p class="message-paragraph"><pre class="code-block"><code>a<em>b</em>c</code></pre></p>''\<close>
  by (simp add: format_marks_def header_rx_def wrap_def rx_run)

lemma step_spacing: \<open>add_spacing ''<p class="message-paragraph"><pre class="code-block"><code>a<em>b</em>c</code></pre></p>''
            = ''<p class="message-paragraph"><pre class="code-block"><code>a<em>b</em>c</code></pre></p>''\<close>
  by (simp add: add_spacing_def block_tags_def rx_run)

lemma cleaning_collapses_code:
  "initial_cleaning (fenced ''a  b'') = fenced ''a b''"
  by (simp add: initial_cleaning_def fenced_def numeral_3_eq_3 js_trim_def rx_run)

text \<open>
  Claim C7 fails on the code. The input is a fenced code block around \<open>a*b*c\<close>. The block is
  taken out and put back through its placeholder, but it is put back before the bold, italic
  and inline-code substitutions run, and the italic one rewrites the code: the output has
  \<open>a<em>b</em>c\<close> where the block had \<open>a*b*c\<close>.
\<close>

theorem code_block_is_altered:
  \<open>formatMessageText (fenced ''a*b*c'')
     = ''<p class="message-paragraph"><pre class="code-block"><code>a<em>b</em>c</code></pre></p>''\<close>
  by (simp add: formatMessageText_def fenced_not_empty step_cleaning step_preserve step_urls step_split step_paragraph step_links step_naked_urls step_restore step_marks step_spacing
        del: restore_code_blocks.simps)

end
